theory Spec2Isabelle
  imports Main "HOL-Library.Multiset"
begin

section \<open>Strings\<close>

text \<open>
  A JavaScript string is modelled as a \<^typ>\<open>string\<close>: a list of code units below 256
  (the Latin-1 range).  \<open>toLowerCase\<close> maps the upper-case letters of that range to
  their lower-case partners and leaves every other character alone.
\<close>

text \<open>
  Upper and lower case of one letter differ by 32, which is bit 5 of the code unit:
  clear in \<open>A\<close>..\<open>Z\<close> (65..90) and in the upper-case letters 192..222, set in their
  lower-case partners.
\<close>

fun with_bit5 :: "bool \<Rightarrow> char \<Rightarrow> char" where
  "with_bit5 b (Char b0 b1 b2 b3 b4 b5 b6 b7) = Char b0 b1 b2 b3 b4 b b6 b7"

definition lower_char :: "char \<Rightarrow> char" where
  "lower_char c =
     (let n = (of_char c :: nat)
      in if (65 \<le> n \<and> n \<le> 90) \<or> (192 \<le> n \<and> n \<le> 222 \<and> n \<noteq> 215)
         then with_bit5 True c else c)"

definition toLowerCase :: "string \<Rightarrow> string" where
  "toLowerCase s = map lower_char s"

fun startsWith :: "string \<Rightarrow> string \<Rightarrow> bool" where
  "startsWith s [] = True"
| "startsWith [] (n # ns) = False"
| "startsWith (c # cs) (n # ns) = (c = n \<and> startsWith cs ns)"

text \<open>\<open>s.includes(needle)\<close>: the needle occurs somewhere in \<open>s\<close> as a contiguous run.\<close>

fun str_includes :: "string \<Rightarrow> string \<Rightarrow> bool" where
  "str_includes [] n = (n = [])"
| "str_includes (c # cs) n = (startsWith (c # cs) n \<or> str_includes cs n)"

section \<open>Regular expressions\<close>

text \<open>
  The patterns of the source are built from single-character atoms, sequence,
  alternation, the greedy quantifiers \<open>*\<close>, \<open>+\<close>, \<open>?\<close> and capture groups.
  \<open>ChI\<close> is a letter under the \<open>i\<close> flag.
\<close>

datatype atom = Ch char | ChI char | Digit | Space | NotSlash

definition is_digit :: "char \<Rightarrow> bool" where
  "is_digit c = (let n = (of_char c :: nat) in 48 \<le> n \<and> n \<le> 57)"

text \<open>The white space of \<open>\s\<close> below code unit 256: TAB, LF, VT, FF, CR, space, NBSP.\<close>

definition is_space :: "char \<Rightarrow> bool" where
  "is_space c = (let n = (of_char c :: nat) in (9 \<le> n \<and> n \<le> 13) \<or> n = 32 \<or> n = 160)"

definition upper_ascii :: "char \<Rightarrow> char" where
  "upper_ascii c =
     (let n = (of_char c :: nat) in if 97 \<le> n \<and> n \<le> 122 then with_bit5 False c else c)"

fun atom_ok :: "atom \<Rightarrow> char \<Rightarrow> bool" where
  "atom_ok (Ch a) c = (c = a)"
| "atom_ok (ChI a) c = (upper_ascii c = upper_ascii a)"
| "atom_ok Digit c = is_digit c"
| "atom_ok Space c = is_space c"
| "atom_ok NotSlash c = (c \<noteq> CHR ''/'')"

datatype rx =
    Eps
  | Atom atom
  | Seq rx rx
  | Alt rx rx
  | Star rx
  | Opt rx
  | Group nat rx

definition Plus :: "rx \<Rightarrow> rx" where
  "Plus r = Seq r (Star r)"

fun lit :: "string \<Rightarrow> rx" where
  "lit [] = Eps"
| "lit (c # cs) = Seq (Atom (Ch c)) (lit cs)"

fun lit_i :: "string \<Rightarrow> rx" where
  "lit_i [] = Eps"
| "lit_i (c # cs) = Seq (Atom (ChI c)) (lit_i cs)"

type_synonym caps = "nat \<Rightarrow> string option"

text \<open>
  The backtracking matcher as a list of successes: \<open>rx_run r (s, c)\<close> lists, in the
  order in which a backtracking engine tries them, the ways \<open>r\<close> can match a prefix
  of \<open>s\<close>; each is the rest of the input with the captures so far.  Greedy
  quantifiers list the longer match first; an iteration of \<open>*\<close> that consumes
  nothing is not repeated.
\<close>

function rx_run :: "rx \<Rightarrow> string \<times> caps \<Rightarrow> (string \<times> caps) list" where
  "rx_run Eps sc = [sc]"
| "rx_run (Atom a) sc =
     (case fst sc of [] \<Rightarrow> [] | x # xs \<Rightarrow> if atom_ok a x then [(xs, snd sc)] else [])"
| "rx_run (Seq a b) sc = concat (map (rx_run b) (rx_run a sc))"
| "rx_run (Alt a b) sc = rx_run a sc @ rx_run b sc"
| "rx_run (Star a) sc =
     concat (map (\<lambda>sc'. if length (fst sc') < length (fst sc) then rx_run (Star a) sc' else [])
                 (rx_run a sc)) @ [sc]"
| "rx_run (Opt a) sc = rx_run a sc @ [sc]"
| "rx_run (Group i a) sc =
     map (\<lambda>sc'. (fst sc', (snd sc')(i \<mapsto> take (length (fst sc) - length (fst sc')) (fst sc))))
         (rx_run a sc)"
  by pat_completeness auto
termination
  by (relation "measures [\<lambda>(r, sc). size r, \<lambda>(r, sc). length (fst sc)]") auto

text \<open>The equation of \<open>*\<close> unfolds into itself, so the equations are used on demand.\<close>

declare rx_run.simps [simp del]

text \<open>
  \<open>s.match(r)\<close> without the \<open>g\<close> flag: the first start position, from the left, at
  which the pattern matches, with the captures of the first way it matches there.
\<close>

fun rx_match :: "rx \<Rightarrow> string \<Rightarrow> caps option" where
  "rx_match r [] = (case rx_run r ([], Map.empty) of [] \<Rightarrow> None | m # _ \<Rightarrow> Some (snd m))"
| "rx_match r (x # xs) =
     (case rx_run r (x # xs, Map.empty) of [] \<Rightarrow> rx_match r xs | m # _ \<Rightarrow> Some (snd m))"

section \<open>JavaScript values\<close>

text \<open>
  The values the fetchers handle: what \<open>JSON.parse\<close> produces, with \<open>undefined\<close>,
  \<open>NaN\<close> and the two infinities.  A number is a double; \<open>JNum n\<close> is the double
  whose value is the integer \<open>n\<close> (the counters of the three platforms are
  integers; fractions are left out).  An object is the list of its own properties,
  looked up by key.
\<close>

datatype jv =
    JUndefined
  | JNull
  | JBool bool
  | JNum int
  | JNaN
  | JInfinity
  | JNegInfinity
  | JStr string
  | JArr "jv list"
  | JObj "(string \<times> jv) list"

text \<open>What a \<open>throw\<close> carries: an \<open>Error\<close> with its message, or some other value.\<close>

datatype thrown = Error string | NonError

fun truthy :: "jv \<Rightarrow> bool" where
  "truthy JUndefined = False"
| "truthy JNull = False"
| "truthy (JBool b) = b"
| "truthy (JNum n) = (n \<noteq> 0)"
| "truthy JNaN = False"
| "truthy JInfinity = True"
| "truthy JNegInfinity = True"
| "truthy (JStr s) = (s \<noteq> [])"
| "truthy (JArr xs) = True"
| "truthy (JObj kvs) = True"

fun nullish :: "jv \<Rightarrow> bool" where
  "nullish JUndefined = True"
| "nullish JNull = True"
| "nullish v = False"

text \<open>\<open>a || b\<close>\<close>

definition or_else :: "jv \<Rightarrow> jv \<Rightarrow> jv" where
  "or_else a b = (if truthy a then a else b)"

definition digit_val :: "char \<Rightarrow> nat" where
  "digit_val c = of_char c - 48"

definition dec_value :: "string \<Rightarrow> nat" where
  "dec_value ds = foldl (\<lambda>acc c. 10 * acc + digit_val c) 0 ds"

text \<open>A property key that is an array index: a decimal numeral without leading zero.\<close>

definition array_index :: "string \<Rightarrow> nat option" where
  "array_index k =
     (if k \<noteq> [] \<and> list_all is_digit k \<and> (hd k \<noteq> CHR ''0'' \<or> length k = 1)
      then Some (dec_value k) else None)"

definition quote :: string where
  "quote = [CHR 0x27]"

definition dquote :: string where
  "dquote = [CHR 0x22]"

text \<open>
  Reading a property, \<open>v.k\<close> or \<open>v[k]\<close>.  On \<open>undefined\<close> and \<open>null\<close> the engine
  throws a \<open>TypeError\<close> (the message is V8's); every other value answers, with
  \<open>undefined\<close> for a property it does not have.
\<close>

fun js_get :: "jv \<Rightarrow> string \<Rightarrow> thrown + jv" where
  "js_get JUndefined k =
     Inl (Error (''Cannot read properties of undefined (reading '' @ quote @ k @ quote @ '')''))"
| "js_get JNull k =
     Inl (Error (''Cannot read properties of null (reading '' @ quote @ k @ quote @ '')''))"
| "js_get (JObj kvs) k = Inr (case map_of kvs k of None \<Rightarrow> JUndefined | Some v \<Rightarrow> v)"
| "js_get (JArr xs) k =
     Inr (if k = ''length'' then JNum (int (length xs))
          else case array_index k of
                 None \<Rightarrow> JUndefined
               | Some i \<Rightarrow> if i < length xs then xs ! i else JUndefined)"
| "js_get (JStr s) k =
     Inr (if k = ''length'' then JNum (int (length s))
          else case array_index k of
                 None \<Rightarrow> JUndefined
               | Some i \<Rightarrow> if i < length s then JStr [s ! i] else JUndefined)"
| "js_get v k = Inr JUndefined"

text \<open>Sequencing of steps that may throw.\<close>

fun andThen :: "thrown + 'a \<Rightarrow> ('a \<Rightarrow> thrown + 'b) \<Rightarrow> thrown + 'b" where
  "andThen (Inl e) f = Inl e"
| "andThen (Inr x) f = f x"

text \<open>
  \<open>v.match(r)\<close>: only a string has the method; on any other value that can reach the
  call the engine throws \<open>TypeError: <name>.match is not a function\<close>.
\<close>

fun js_match :: "string \<Rightarrow> jv \<Rightarrow> rx \<Rightarrow> thrown + caps option" where
  "js_match name (JStr s) r = Inr (rx_match r s)"
| "js_match name JUndefined r = andThen (js_get JUndefined ''match'') (\<lambda>_. Inr None)"
| "js_match name JNull r = andThen (js_get JNull ''match'') (\<lambda>_. Inr None)"
| "js_match name v r = Inl (Error (name @ ''.match is not a function''))"

text \<open>\<open>s.replace(/,/g, '')\<close>\<close>

definition strip_commas :: "string \<Rightarrow> string" where
  "strip_commas s = filter (\<lambda>c. c \<noteq> CHR '','') s"

definition hex_val :: "char \<Rightarrow> nat option" where
  "hex_val c =
     (let n = (of_char c :: nat)
      in if 48 \<le> n \<and> n \<le> 57 then Some (n - 48)
         else if 97 \<le> n \<and> n \<le> 102 then Some (n - 87)
         else if 65 \<le> n \<and> n \<le> 70 then Some (n - 55)
         else None)"

definition hex_value :: "string \<Rightarrow> nat" where
  "hex_value ds = foldl (\<lambda>acc c. 16 * acc + (case hex_val c of None \<Rightarrow> 0 | Some d \<Rightarrow> d)) 0 ds"

text \<open>
  The double nearest to a natural number.  Below \<open>2^53\<close> (9007199254740992) every
  integer is a double.  Above, a double has 53 significant bits: the number is
  rounded to a multiple of \<open>2^e\<close>, where \<open>e\<close> is its bit length less 53, to the
  nearer one and on a tie to the one with the even multiplier; a result of \<open>2^1024\<close>
  or more is no double, and the number becomes infinity.
\<close>

fun bitlen :: "nat \<Rightarrow> nat" where
  "bitlen n = (if n = 0 then 0 else Suc (bitlen (n div 2)))"

declare bitlen.simps [simp del]

definition double_of_nat :: "nat \<Rightarrow> nat option" where
  "double_of_nat n =
     (if n < 9007199254740992 then Some n
      else let e = bitlen n - 53;
               q = n div 2 ^ e;
               r = n mod 2 ^ e;
               q' = (if 2 ^ e < 2 * r \<or> (2 * r = 2 ^ e \<and> odd q) then q + 1 else q);
               m = q' * 2 ^ e
           in if m < 2 ^ 1024 then Some m else None)"

definition js_number :: "bool \<Rightarrow> nat \<Rightarrow> jv" where
  "js_number negative n =
     (case double_of_nat n of
        None \<Rightarrow> if negative then JNegInfinity else JInfinity
      | Some m \<Rightarrow> JNum (if negative then - int m else int m))"

text \<open>
  \<open>parseInt(s)\<close> with no radix: leading white space and a sign are skipped, a
  \<open>0x\<close> prefix selects base 16, the longest run of digits is read, and no digit at
  all gives \<open>NaN\<close>.  The result is a number: the double nearest to the integer
  the digits denote.
\<close>

definition parseInt :: "string \<Rightarrow> jv" where
  "parseInt s =
     (let t = dropWhile is_space s;
          neg = startsWith t ''-'';
          t1 = (if startsWith t ''-'' \<or> startsWith t ''+'' then tl t else t);
          hex = startsWith t1 ''0x'' \<or> startsWith t1 ''0X'';
          ds = (if hex then takeWhile (\<lambda>c. hex_val c \<noteq> None) (drop 2 t1)
                else takeWhile is_digit t1);
          n = (if hex then hex_value ds else dec_value ds)
      in if ds = [] then JNaN else js_number neg n)"

section \<open>The upstream HTTP layer\<close>

record request =
  req_url :: string
  req_method :: string
  req_headers :: "(string \<times> string) list"
  req_body :: "jv option"

text \<open>
  A response: its \<open>ok\<close> flag (status 2xx), its status text, and what
  \<open>response.json()\<close> settles to (the parsed payload, or what it throws on a body
  that is not JSON).
\<close>

record response =
  ok :: bool
  statusText :: string
  json :: "thrown + jv"

datatype http_outcome = Rejects thrown | Responds response

text \<open>
  What one fetch task sees of the outside: the answer of the network to each
  request, the clock when the record is built, and the search-proxy key of the
  configuration.
\<close>

record world =
  fetch :: "request \<Rightarrow> http_outcome"
  now :: string
  serper_apiKey :: string

section \<open>The metrics record\<close>

record SocialMetrics =
  platform :: string
  url :: string
  metrics :: "(string \<times> jv) list"
  timestamp :: string
  success :: bool
  error :: "string option"

text \<open>The \<open>catch\<close> block shared by the three fetchers.\<close>

definition error_message :: "thrown \<Rightarrow> string" where
  "error_message e = (case e of Error m \<Rightarrow> m | NonError \<Rightarrow> ''Unknown error'')"

definition failure :: "string \<Rightarrow> world \<Rightarrow> string \<Rightarrow> thrown \<Rightarrow> SocialMetrics" where
  "failure p w u e =
     \<lparr>platform = p, url = u, metrics = [], timestamp = now w, success = False,
      error = Some (error_message e)\<rparr>"

definition caught ::
  "string \<Rightarrow> world \<Rightarrow> string \<Rightarrow> (thrown + SocialMetrics) \<times> request list
     \<Rightarrow> SocialMetrics \<times> request list" where
  "caught p w u r =
     (case fst r of Inl e \<Rightarrow> (failure p w u e, snd r) | Inr m \<Rightarrow> (m, snd r))"

text \<open>A capture group of a match, spliced into a template literal.\<close>

definition template :: "string option \<Rightarrow> string" where
  "template g = (case g of None \<Rightarrow> ''undefined'' | Some s \<Rightarrow> s)"

section \<open>Reddit\<close>

text \<open>\<open>/reddit\.com\/r\/[^/]+\/comments\/([^/]+)/\<close>\<close>

definition reddit_rx :: rx where
  "reddit_rx =
     Seq (lit ''reddit.com/r/'')
    (Seq (Plus (Atom NotSlash))
    (Seq (lit ''/comments/'')
         (Group 1 (Plus (Atom NotSlash)))))"

definition reddit_request :: "string \<Rightarrow> request" where
  "reddit_request apiUrl =
     \<lparr>req_url = apiUrl, req_method = ''GET'',
      req_headers = [(''User-Agent'', ''SocialMonitor-AI/1.0 (Social Media Analytics Tool)''),
                     (''Accept'', ''application/json'')],
      req_body = None\<rparr>"

text \<open>
  \<open>data[0]?.data?.children[0]?.data\<close>: each \<open>?.\<close> ends the whole chain with
  \<open>undefined\<close> when the value before it is \<open>undefined\<close> or \<open>null\<close>; the reads
  \<open>data[0]\<close> and \<open>children[0]\<close> are unguarded.
\<close>

definition reddit_postData :: "jv \<Rightarrow> thrown + jv" where
  "reddit_postData data =
     andThen (js_get data ''0'') (\<lambda>d0.
       if nullish d0 then Inr JUndefined
       else andThen (js_get d0 ''data'') (\<lambda>d1.
         if nullish d1 then Inr JUndefined
         else andThen (js_get d1 ''children'') (\<lambda>children.
              andThen (js_get children ''0'') (\<lambda>c0.
                if nullish c0 then Inr JUndefined else js_get c0 ''data''))))"

definition getRedditMetrics_try ::
  "world \<Rightarrow> string \<Rightarrow> (thrown + SocialMetrics) \<times> request list" where
  "getRedditMetrics_try w u =
     (case rx_match reddit_rx u of
        None \<Rightarrow> (Inl (Error ''Invalid Reddit URL format''), [])
      | Some redditMatch \<Rightarrow>
          let postId = redditMatch 1;
              apiUrl = ''https://www.reddit.com/comments/'' @ template postId @ ''.json'';
              req = reddit_request apiUrl
          in (case fetch w req of
                Rejects e \<Rightarrow> Inl e
              | Responds response \<Rightarrow>
                  if \<not> ok response
                  then Inl (Error (''Reddit API error: '' @ statusText response))
                  else andThen (json response) (\<lambda>data.
                       andThen (reddit_postData data) (\<lambda>postData.
                         if \<not> truthy postData
                         then Inl (Error ''Reddit post data not found'')
                         else andThen (js_get postData ''ups'') (\<lambda>ups.
                              andThen (js_get postData ''downs'') (\<lambda>downs.
                              andThen (js_get postData ''num_comments'') (\<lambda>num_comments.
                              andThen (js_get postData ''total_awards_received'') (\<lambda>awards.
                                Inr \<lparr>platform = ''reddit'', url = u,
                                     metrics = [(''upvotes'', or_else ups (JNum 0)),
                                                (''downvotes'', or_else downs (JNum 0)),
                                                (''comments'', or_else num_comments (JNum 0)),
                                                (''awards'', or_else awards (JNum 0))],
                                     timestamp = now w, success = True,
                                     error = None\<rparr>)))))),
              [req]))"

definition getRedditMetrics :: "world \<Rightarrow> string \<Rightarrow> SocialMetrics \<times> request list" where
  "getRedditMetrics w u = caught ''reddit'' w u (getRedditMetrics_try w u)"

section \<open>The search proxy\<close>

definition serper_request :: "world \<Rightarrow> string \<Rightarrow> request" where
  "serper_request w q =
     \<lparr>req_url = ''https://google.serper.dev/search'', req_method = ''POST'',
      req_headers = [(''X-API-KEY'', serper_apiKey w), (''Content-Type'', ''application/json'')],
      req_body = Some (JObj [(''q'', JStr q), (''num'', JNum 1)])\<rparr>"

text \<open>
  The snippet patterns, \<open>/(\d+(?:,\d+)*)\s*views?/i\<close> and its siblings: a number
  with comma groups, optional white space, the word, and an optional last letter.
\<close>

definition counter_rx :: "string \<Rightarrow> char \<Rightarrow> rx" where
  "counter_rx word final =
     Seq (Group 1 (Seq (Plus (Atom Digit))
                       (Star (Seq (Atom (Ch (CHR '',''))) (Plus (Atom Digit))))))
    (Seq (Star (Atom Space))
    (Seq (lit_i word) (Opt (Atom (ChI final)))))"

text \<open>\<open>m ? parseInt(m[1].replace(/,/g, '')) : 0\<close>\<close>

definition counter :: "caps option \<Rightarrow> thrown + jv" where
  "counter m =
     (case m of
        None \<Rightarrow> Inr (JNum 0)
      | Some c \<Rightarrow>
          (case c 1 of
             None \<Rightarrow> andThen (js_get JUndefined ''replace'') (\<lambda>_. Inr JNaN)
           | Some g \<Rightarrow> Inr (parseInt (strip_commas g))))"

section \<open>Quora\<close>

definition getQuoraMetrics_try ::
  "world \<Rightarrow> string \<Rightarrow> (thrown + SocialMetrics) \<times> request list" where
  "getQuoraMetrics_try w u =
     (let req = serper_request w (''site:quora.com '' @ dquote @ u @ dquote)
      in (case fetch w req of
            Rejects e \<Rightarrow> Inl e
          | Responds response \<Rightarrow>
              if \<not> ok response
              then Inl (Error (''Serper API error: '' @ statusText response))
              else andThen (json response) (\<lambda>data.
                   andThen (js_get data ''organic'') (\<lambda>organic.
                   andThen (if nullish organic then Inr JUndefined else js_get organic ''0'')
                     (\<lambda>result.
                     if \<not> truthy result
                     then Inl (Error ''Quora post not found in search results'')
                     else andThen (js_get result ''snippet'') (\<lambda>sn.
                          let snippet = or_else sn (JStr '''')
                          in andThen (js_match ''snippet'' snippet (counter_rx ''view'' CHR ''s''))
                               (\<lambda>viewsMatch.
                             andThen (js_match ''snippet'' snippet
                                        (counter_rx ''upvote'' CHR ''s''))
                               (\<lambda>upvotesMatch.
                             andThen (counter viewsMatch) (\<lambda>views.
                             andThen (counter upvotesMatch) (\<lambda>upvotes.
                               Inr \<lparr>platform = ''quora'', url = u,
                                    metrics = [(''views'', views),
                                               (''upvotes_quora'', upvotes),
                                               (''shares'', JNum 0)],
                                    timestamp = now w, success = True,
                                    error = None\<rparr>)))))))),
          [req]))"

definition getQuoraMetrics :: "world \<Rightarrow> string \<Rightarrow> SocialMetrics \<times> request list" where
  "getQuoraMetrics w u = caught ''quora'' w u (getQuoraMetrics_try w u)"

section \<open>Twitter/X\<close>

text \<open>\<open>/twitter\.com\/[^/]+\/status\/(\d+)|x\.com\/[^/]+\/status\/(\d+)/\<close>\<close>

definition twitter_rx :: rx where
  "twitter_rx =
     Alt (Seq (lit ''twitter.com/'')
         (Seq (Plus (Atom NotSlash))
         (Seq (lit ''/status/'') (Group 1 (Plus (Atom Digit))))))
         (Seq (lit ''x.com/'')
         (Seq (Plus (Atom NotSlash))
         (Seq (lit ''/status/'') (Group 2 (Plus (Atom Digit))))))"

text \<open>\<open>twitterMatch[1] || twitterMatch[2]\<close>\<close>

definition first_capture :: "caps \<Rightarrow> string option" where
  "first_capture m = (case m 1 of None \<Rightarrow> m 2 | Some g \<Rightarrow> if g = [] then m 2 else Some g)"

definition getTwitterMetrics_try ::
  "world \<Rightarrow> string \<Rightarrow> (thrown + SocialMetrics) \<times> request list" where
  "getTwitterMetrics_try w u =
     (case rx_match twitter_rx u of
        None \<Rightarrow> (Inl (Error ''Invalid Twitter/X URL format''), [])
      | Some twitterMatch \<Rightarrow>
          let tweetId = first_capture twitterMatch;
              req = serper_request w
                      (''site:twitter.com OR site:x.com '' @ dquote @ template tweetId @ dquote
                         @ '' engagement metrics'')
          in (case fetch w req of
                Rejects e \<Rightarrow> Inl e
              | Responds response \<Rightarrow>
                  if \<not> ok response
                  then Inl (Error (''Serper API error: '' @ statusText response))
                  else andThen (json response) (\<lambda>data.
                       andThen (js_get data ''organic'') (\<lambda>organic.
                       andThen (if nullish organic then Inr JUndefined else js_get organic ''0'')
                         (\<lambda>result.
                       andThen (if nullish result then Inr JUndefined
                                else js_get result ''snippet'') (\<lambda>sn.
                         let snippet = or_else sn (JStr '''')
                         in andThen (js_match ''snippet'' snippet (counter_rx ''like'' CHR ''s''))
                              (\<lambda>likesMatch.
                            andThen (js_match ''snippet'' snippet
                                       (counter_rx ''retweet'' CHR ''s''))
                              (\<lambda>retweetsMatch.
                            andThen (js_match ''snippet'' snippet
                                       (counter_rx ''replie'' CHR ''s''))
                              (\<lambda>repliesMatch.
                            andThen (counter likesMatch) (\<lambda>likes.
                            andThen (counter retweetsMatch) (\<lambda>retweets.
                            andThen (counter repliesMatch) (\<lambda>replies.
                              Inr \<lparr>platform = ''twitter'', url = u,
                                   metrics = [(''likes'', likes),
                                              (''retweets'', retweets),
                                              (''replies'', replies),
                                              (''quotes'', JNum 0),
                                              (''bookmarks'', JNum 0)],
                                   timestamp = now w, success = True,
                                   error = None\<rparr>)))))))))),
              [req]))"

definition getTwitterMetrics :: "world \<Rightarrow> string \<Rightarrow> SocialMetrics \<times> request list" where
  "getTwitterMetrics w u = caught ''twitter'' w u (getTwitterMetrics_try w u)"

section \<open>The dispatcher\<close>

definition unsupported :: "world \<Rightarrow> string \<Rightarrow> SocialMetrics" where
  "unsupported w u =
     \<lparr>platform = ''unknown'', url = u, metrics = [], timestamp = now w, success = False,
      error = Some ''Unsupported platform. Supported: Reddit, Quora, Twitter/X''\<rparr>"

definition getSocialMetrics :: "world \<Rightarrow> string \<Rightarrow> SocialMetrics \<times> request list" where
  "getSocialMetrics w u =
     (let normalizedUrl = toLowerCase u
      in if str_includes normalizedUrl ''reddit.com'' then getRedditMetrics w u
         else if str_includes normalizedUrl ''quora.com'' then getQuoraMetrics w u
         else if str_includes normalizedUrl ''twitter.com'' \<or> str_includes normalizedUrl ''x.com''
              then getTwitterMetrics w u
         else (unsupported w u, []))"

section \<open>Bulk fetch\<close>

text \<open>
  A settled promise.  \<open>Promise.all\<close> fulfils with the values in the order of its
  argument once every promise has fulfilled, and rejects as soon as one rejects
  (here with the reason of the first rejected one in the list: which of several
  rejects first in time is not part of the model).
\<close>

datatype 'a settled = Fulfilled 'a | Rejected thrown

fun Promise_all :: "'a settled list \<Rightarrow> 'a list settled" where
  "Promise_all [] = Fulfilled []"
| "Promise_all (Rejected e # ps) = Rejected e"
| "Promise_all (Fulfilled x # ps) =
     (case Promise_all ps of Rejected e \<Rightarrow> Rejected e | Fulfilled xs \<Rightarrow> Fulfilled (x # xs))"

text \<open>
  The promise of the dispatcher: the fetchers catch what they throw, so it always
  fulfils, with the record.
\<close>

definition getSocialMetrics_promise :: "world \<Rightarrow> string \<Rightarrow> SocialMetrics settled" where
  "getSocialMetrics_promise w u = Fulfilled (fst (getSocialMetrics w u))"

text \<open>
  The tasks of one batch run interleaved, each against the network and the clock
  as it finds them: \<open>ws i\<close> is the world of the task at index \<open>i\<close>.
\<close>

definition getBulkSocialMetrics :: "(nat \<Rightarrow> world) \<Rightarrow> string list \<Rightarrow> SocialMetrics list settled" where
  "getBulkSocialMetrics ws urls =
     (let promises = map (\<lambda>(i, u). getSocialMetrics_promise (ws i) u) (enumerate 0 urls)
      in Promise_all promises)"

section \<open>Notions for the statements about the fetchers\<close>

text \<open>The capture groups and the atoms of a pattern.\<close>

fun groups :: "rx \<Rightarrow> nat set" where
  "groups Eps = {}"
| "groups (Atom a) = {}"
| "groups (Seq a b) = groups a \<union> groups b"
| "groups (Alt a b) = groups a \<union> groups b"
| "groups (Star a) = groups a"
| "groups (Opt a) = groups a"
| "groups (Group i a) = insert i (groups a)"

fun atoms :: "rx \<Rightarrow> atom set" where
  "atoms Eps = {}"
| "atoms (Atom a) = {a}"
| "atoms (Seq a b) = atoms a \<union> atoms b"
| "atoms (Alt a b) = atoms a \<union> atoms b"
| "atoms (Star a) = atoms a"
| "atoms (Opt a) = atoms a"
| "atoms (Group i a) = atoms a"

text \<open>
  The number a snippet pattern extracts from a text: the digits of its first match
  with the commas taken out, read in base ten, and 0 when the pattern has no match.
\<close>

definition extracted :: "string \<Rightarrow> char \<Rightarrow> string \<Rightarrow> nat" where
  "extracted word final text =
     (case rx_match (counter_rx word final) text of
        None \<Rightarrow> 0
      | Some m \<Rightarrow> (case m 1 of None \<Rightarrow> 0 | Some g \<Rightarrow> dec_value (strip_commas g)))"

text \<open>A payload of the search proxy without an organic result: an object whose
  \<open>organic\<close> is missing, \<open>null\<close> or the empty list.\<close>

fun no_organic_result :: "jv \<Rightarrow> bool" where
  "no_organic_result (JObj kvs) =
     (case map_of kvs ''organic'' of
        None \<Rightarrow> True
      | Some organic \<Rightarrow> organic = JNull \<or> organic = JArr [])"
| "no_organic_result v = False"

section \<open>Insertion-ordered maps\<close>

text \<open>
  A JavaScript \<open>Map\<close> is the list of its entries in insertion order, with one entry
  per key: \<open>set\<close> overwrites the entry of a key in place and appends a new key,
  \<open>delete\<close> drops the entry of the key.
\<close>

type_synonym ('k, 'v) js_map = "('k \<times> 'v) list"

definition Map_get :: "('k, 'v) js_map \<Rightarrow> 'k \<Rightarrow> 'v option" where
  "Map_get m k = map_of m k"

fun Map_set :: "'k \<Rightarrow> 'v \<Rightarrow> ('k, 'v) js_map \<Rightarrow> ('k, 'v) js_map" where
  "Map_set k v [] = [(k, v)]"
| "Map_set k v (p # ps) = (if fst p = k then (k, v) # ps else p # Map_set k v ps)"

definition Map_delete :: "'k \<Rightarrow> ('k, 'v) js_map \<Rightarrow> ('k, 'v) js_map" where
  "Map_delete k m = filter (\<lambda>p. fst p \<noteq> k) m"

definition Map_values :: "('k, 'v) js_map \<Rightarrow> 'v list" where
  "Map_values m = map snd m"

section \<open>The monitor registry\<close>

text \<open>
  The registry is the map \<open>intervals\<close> from a URL to the handle of its timer.  Around
  it stands the part of the runtime that the registry acts on: the table of live
  interval timers (what \<open>setInterval\<close> registered and \<open>clearInterval\<close> has not yet
  cancelled: the URL and callback the timer's closure holds, and the delay in ms the
  timer runs at), the
  fetches that were started and have not settled, and the calls of callbacks made so
  far.  A callback is a value of type \<open>'c\<close>.
\<close>

record 'c timer =
  timer_url :: string
  timer_delay :: int
  timer_callback :: 'c

record 'c MetricsMonitor =
  intervals :: "(string, nat) js_map"
  timers :: "nat \<Rightarrow> 'c timer option"
  next_handle :: nat
  pending :: "(string \<times> 'c) list"
  delivered :: "('c \<times> SocialMetrics) list"

definition new_MetricsMonitor :: "'c MetricsMonitor" where
  "new_MetricsMonitor =
     \<lparr>intervals = [], timers = (\<lambda>h. None), next_handle = 0, pending = [], delivered = []\<rparr>"

definition clearInterval :: "nat \<Rightarrow> 'c MetricsMonitor \<Rightarrow> 'c MetricsMonitor" where
  "clearInterval h s = s\<lparr>timers := (timers s)(h := None)\<rparr>"

text \<open>
  The delay a timer of the runtime (Node) runs at: the delay asked for when that lies
  between 1 and 2147483647 ms, and 1 ms for every other delay.
\<close>

definition timeout_after :: "int \<Rightarrow> int" where
  "timeout_after delay = (if 1 \<le> delay \<and> delay \<le> 2147483647 then delay else 1)"

text \<open>\<open>setInterval\<close> for a closure over \<open>u\<close> and \<open>callback\<close>, asked to run every \<open>delay\<close> ms.\<close>

definition setInterval ::
  "string \<Rightarrow> 'c \<Rightarrow> int \<Rightarrow> 'c MetricsMonitor \<Rightarrow> nat \<times> 'c MetricsMonitor" where
  "setInterval u callback delay s =
     (next_handle s,
      s\<lparr>timers := (timers s)(next_handle s \<mapsto>
               \<lparr>timer_url = u, timer_delay = timeout_after delay, timer_callback = callback\<rparr>),
        next_handle := Suc (next_handle s)\<rparr>)"

text \<open>
  \<open>getSocialMetrics(url).then(callback)\<close>: the fetch starts now, the callback runs
  when it has settled.
\<close>

definition start_fetch :: "string \<Rightarrow> 'c \<Rightarrow> 'c MetricsMonitor \<Rightarrow> 'c MetricsMonitor" where
  "start_fetch u callback s = s\<lparr>pending := pending s @ [(u, callback)]\<rparr>"

definition stopMonitoring :: "string \<Rightarrow> 'c MetricsMonitor \<Rightarrow> 'c MetricsMonitor" where
  "stopMonitoring u s =
     (case Map_get (intervals s) u of
        None \<Rightarrow> s
      | Some interval \<Rightarrow>
          (clearInterval interval s)\<lparr>intervals := Map_delete u (intervals s)\<rparr>)"

text \<open>The interval is optional: its default is 300000 ms.  It is a whole number of
  milliseconds here.\<close>

definition startMonitoring ::
  "string \<Rightarrow> int option \<Rightarrow> 'c \<Rightarrow> 'c MetricsMonitor \<Rightarrow> 'c MetricsMonitor" where
  "startMonitoring u intervalMs callback s =
     (let ms = (case intervalMs of None \<Rightarrow> 300000 | Some n \<Rightarrow> n);
          s1 = stopMonitoring u s;
          s2 = start_fetch u callback s1;
          (interval, s3) = setInterval u callback ms s2
      in s3\<lparr>intervals := Map_set u interval (intervals s3)\<rparr>)"

definition stopAllMonitoring :: "'c MetricsMonitor \<Rightarrow> 'c MetricsMonitor" where
  "stopAllMonitoring s =
     (fold clearInterval (Map_values (intervals s)) s)\<lparr>intervals := []\<rparr>"

text \<open>
  What the runtime does between the calls.  A live timer fires: its closure starts a
  fetch of its URL.  A pending fetch settles, in the world it ran in: its callback
  is called with the record.
\<close>

definition tick :: "nat \<Rightarrow> 'c MetricsMonitor \<Rightarrow> 'c MetricsMonitor" where
  "tick h s =
     (case timers s h of
        None \<Rightarrow> s
      | Some t \<Rightarrow> start_fetch (timer_url t) (timer_callback t) s)"

definition settle :: "world \<Rightarrow> nat \<Rightarrow> 'c MetricsMonitor \<Rightarrow> 'c MetricsMonitor" where
  "settle w i s =
     (if i < length (pending s)
      then s\<lparr>pending := take i (pending s) @ drop (Suc i) (pending s),
             delivered := delivered s @
               [(snd (pending s ! i), fst (getSocialMetrics w (fst (pending s ! i))))]\<rparr>
      else s)"

text \<open>The states a registry can be in: those reached from a new one.\<close>

inductive reachable :: "'c MetricsMonitor \<Rightarrow> bool" where
  new: "reachable new_MetricsMonitor"
| start: "reachable s \<Longrightarrow> reachable (startMonitoring u intervalMs callback s)"
| stop: "reachable s \<Longrightarrow> reachable (stopMonitoring u s)"
| stopAll: "reachable s \<Longrightarrow> reachable (stopAllMonitoring s)"
| tick: "reachable s \<Longrightarrow> reachable (tick h s)"
| settle: "reachable s \<Longrightarrow> reachable (settle w i s)"

text \<open>
  The timers of a reachable registry: every live timer is the one the map holds for
  its URL, every handle in the map is a live timer of that URL, and no handle that
  the runtime has yet to issue is live.
\<close>

definition registry_ok :: "'c MetricsMonitor \<Rightarrow> bool" where
  "registry_ok s \<longleftrightarrow>
     distinct (map fst (intervals s)) \<and>
     (\<forall>u h. Map_get (intervals s) u = Some h \<longrightarrow> (\<exists>t. timers s h = Some t \<and> timer_url t = u)) \<and>
     (\<forall>h t. timers s h = Some t \<longrightarrow> Map_get (intervals s) (timer_url t) = Some h) \<and>
     (\<forall>h. next_handle s \<le> h \<longrightarrow> timers s h = None)"

section \<open>The metrics store\<close>

text \<open>
  A stored row: the fields of the inserted record (its URL, its platform, and the
  rest, which the store does not look at), the identifier and the creation time the
  store gives it.  A time is the number of milliseconds \<open>getTime()\<close> returns.
\<close>

record 'a InsertSocialMetric =
  ins_url :: string
  ins_platform :: string
  ins_rest :: 'a

record 'a SocialMetric =
  sm_id :: nat
  sm_url :: string
  sm_platform :: string
  sm_createdAt :: int
  sm_rest :: 'a

record 'a MemStorage =
  socialMetrics :: "(nat, 'a SocialMetric) js_map"
  currentMetricId :: nat

definition new_MemStorage :: "'a MemStorage" where
  "new_MemStorage = \<lparr>socialMetrics = [], currentMetricId = 1\<rparr>"

text \<open>\<open>createSocialMetric\<close> at clock reading \<open>at\<close>.\<close>

definition createSocialMetric ::
  "int \<Rightarrow> 'a InsertSocialMetric \<Rightarrow> 'a MemStorage \<Rightarrow> 'a SocialMetric \<times> 'a MemStorage" where
  "createSocialMetric at insertMetric st =
     (let ident = currentMetricId st;
          metric = \<lparr>sm_id = ident, sm_url = ins_url insertMetric,
                    sm_platform = ins_platform insertMetric, sm_createdAt = at,
                    sm_rest = ins_rest insertMetric\<rparr>
      in (metric,
          st\<lparr>currentMetricId := ident + 1,
             socialMetrics := Map_set ident metric (socialMetrics st)\<rparr>))"

text \<open>
  \<open>Array.prototype.sort\<close> with a comparator is stable: elements that compare equal
  keep their order.  The result is the one of insertion sort, where an element goes
  in front of the first one it does not compare greater than.
\<close>

fun insert_cmp :: "('a \<Rightarrow> 'a \<Rightarrow> int) \<Rightarrow> 'a \<Rightarrow> 'a list \<Rightarrow> 'a list" where
  "insert_cmp cmp x [] = [x]"
| "insert_cmp cmp x (y # ys) = (if cmp x y \<le> 0 then x # y # ys else y # insert_cmp cmp x ys)"

definition js_sort :: "('a \<Rightarrow> 'a \<Rightarrow> int) \<Rightarrow> 'a list \<Rightarrow> 'a list" where
  "js_sort cmp xs = foldr (insert_cmp cmp) xs []"

text \<open>\<open>(a, b) => new Date(b.createdAt).getTime() - new Date(a.createdAt).getTime()\<close>\<close>

definition newest_first :: "'a SocialMetric \<Rightarrow> 'a SocialMetric \<Rightarrow> int" where
  "newest_first a b = sm_createdAt b - sm_createdAt a"

text \<open>\<open>if (arg)\<close> on an optional string: given and not empty.\<close>

definition given :: "string option \<Rightarrow> bool" where
  "given arg = (case arg of None \<Rightarrow> False | Some x \<Rightarrow> x \<noteq> [])"

definition MemStorage_getSocialMetrics ::
  "'a MemStorage \<Rightarrow> string option \<Rightarrow> string option \<Rightarrow> 'a SocialMetric list" where
  "MemStorage_getSocialMetrics st u p =
     (let metrics = Map_values (socialMetrics st);
          metrics1 = (if given u then filter (\<lambda>m. Some (sm_url m) = u) metrics else metrics);
          metrics2 = (if given p then filter (\<lambda>m. Some (sm_platform m) = p) metrics1
                      else metrics1)
      in js_sort newest_first metrics2)"

definition MemStorage_getLatestMetrics :: "'a MemStorage \<Rightarrow> string \<Rightarrow> 'a SocialMetric option" where
  "MemStorage_getLatestMetrics st u =
     (case MemStorage_getSocialMetrics st (Some u) None of [] \<Rightarrow> None | m # ms \<Rightarrow> Some m)"

text \<open>What a filter argument asks of a field: nothing when it is missing or empty,
  equality otherwise.\<close>

definition wanted :: "string option \<Rightarrow> string \<Rightarrow> bool" where
  "wanted arg x = (case arg of None \<Rightarrow> True | Some y \<Rightarrow> y = [] \<or> x = y)"

text \<open>The keys of a store are the identifiers it has given out.\<close>

definition store_ok :: "'a MemStorage \<Rightarrow> bool" where
  "store_ok st \<longleftrightarrow> list_all (\<lambda>k. k < currentMetricId st) (map fst (socialMetrics st))"

section \<open>Sample worlds\<close>

definition world_down :: world where
  "world_down =
     \<lparr>fetch = (\<lambda>_. Rejects (Error ''fetch failed'')), now = ''2025-01-01T00:00:00.000Z'',
      serper_apiKey = ''key''\<rparr>"

definition world_with :: "jv \<Rightarrow> world" where
  "world_with payload =
     \<lparr>fetch = (\<lambda>_. Responds \<lparr>ok = True, statusText = ''OK'', json = Inr payload\<rparr>),
      now = ''2025-01-01T00:00:00.000Z'', serper_apiKey = ''key''\<rparr>"

text \<open>A comments payload of Reddit around one post, and a search-proxy payload around
  one organic result with the given snippet.\<close>

definition reddit_listing :: "jv \<Rightarrow> jv" where
  "reddit_listing postData =
     JArr [JObj [(''data'', JObj [(''children'', JArr [JObj [(''data'', postData)]])])]]"

definition serper_payload :: "jv \<Rightarrow> jv" where
  "serper_payload snippet = JObj [(''organic'', JArr [JObj [(''snippet'', snippet)]])]"

text \<open>\<open>postData.k || 0\<close> on an object: the field if it is there and truthy, else 0.\<close>

definition field_or_0 :: "(string \<times> jv) list \<Rightarrow> string \<Rightarrow> jv" where
  "field_or_0 flds k =
     (case map_of flds k of None \<Rightarrow> JNum 0 | Some v \<Rightarrow> if truthy v then v else JNum 0)"

text \<open>A record to insert into the store.\<close>

definition sample_insert :: "unit InsertSocialMetric" where
  "sample_insert = \<lparr>ins_url = ''https://x.com/a/status/1'', ins_platform = ''twitter'', ins_rest = ()\<rparr>"

text \<open>A record to insert whose rest is the time the record itself carries.\<close>

definition record_at :: "string \<Rightarrow> int \<Rightarrow> int InsertSocialMetric" where
  "record_at u t = \<lparr>ins_url = u, ins_platform = ''twitter'', ins_rest = t\<rparr>"

section \<open>Properties of the string functions\<close>

text \<open>\<open>str_includes\<close> is containment of a contiguous run.\<close>

lemma startsWith_iff: "startsWith s n \<longleftrightarrow> (\<exists>post. s = n @ post)"
  by (induction s n rule: startsWith.induct) auto

lemma str_includes_iff: "str_includes s n \<longleftrightarrow> (\<exists>pre post. s = pre @ n @ post)"
proof (induction s)
  case Nil
  then show ?case by simp
next
  case (Cons c cs)
  have "(\<exists>pre post. c # cs = pre @ n @ post) \<longleftrightarrow>
        (\<exists>post. c # cs = n @ post) \<or> (\<exists>pre post. cs = pre @ n @ post)"
  proof
    assume "\<exists>pre post. c # cs = pre @ n @ post"
    then obtain pre post where e: "c # cs = pre @ n @ post" by blast
    show "(\<exists>post. c # cs = n @ post) \<or> (\<exists>pre post. cs = pre @ n @ post)"
    proof (cases pre)
      case Nil
      with e show ?thesis by auto
    next
      case (Cons p ps)
      with e have "cs = ps @ n @ post" by simp
      then show ?thesis by blast
    qed
  next
    assume "(\<exists>post. c # cs = n @ post) \<or> (\<exists>pre post. cs = pre @ n @ post)"
    then show "\<exists>pre post. c # cs = pre @ n @ post"
    proof
      assume "\<exists>post. c # cs = n @ post"
      then obtain post where "c # cs = [] @ n @ post" by auto
      then show ?thesis by blast
    next
      assume "\<exists>pre post. cs = pre @ n @ post"
      then obtain pre post where "c # cs = (c # pre) @ n @ post" by auto
      then show ?thesis by blast
    qed
  qed
  with Cons show ?case by (simp add: startsWith_iff)
qed

section \<open>Properties of the matcher\<close>

lemma rx_run_Seq_iff:
  "sc' \<in> set (rx_run (Seq a b) sc) \<longleftrightarrow> (\<exists>mid\<in>set (rx_run a sc). sc' \<in> set (rx_run b mid))"
  by (simp add: rx_run.simps)

lemma rx_run_Alt_iff:
  "sc' \<in> set (rx_run (Alt a b) sc) \<longleftrightarrow> sc' \<in> set (rx_run a sc) \<or> sc' \<in> set (rx_run b sc)"
  by (simp add: rx_run.simps)

lemma rx_run_Star_iff:
  "sc' \<in> set (rx_run (Star a) sc) \<longleftrightarrow>
     sc' = sc \<or> (\<exists>mid\<in>set (rx_run a sc). length (fst mid) < length (fst sc) \<and>
                  sc' \<in> set (rx_run (Star a) mid))"
  by (subst rx_run.simps) (auto split: if_splits)

lemma rx_run_Opt_iff:
  "sc' \<in> set (rx_run (Opt a) sc) \<longleftrightarrow> sc' \<in> set (rx_run a sc) \<or> sc' = sc"
  by (auto simp: rx_run.simps)

lemma rx_run_Group_iff:
  "sc' \<in> set (rx_run (Group i a) sc) \<longleftrightarrow>
     (\<exists>mid\<in>set (rx_run a sc).
        sc' = (fst mid, (snd mid)(i \<mapsto> take (length (fst sc) - length (fst mid)) (fst sc))))"
  by (auto simp: rx_run.simps)

lemma rx_run_Atom_iff:
  "sc' \<in> set (rx_run (Atom a) sc) \<longleftrightarrow>
     (\<exists>x. fst sc = x # fst sc' \<and> atom_ok a x \<and> snd sc' = snd sc)"
  by (cases "fst sc"; cases sc') (auto simp: rx_run.simps)

lemma rx_run_consumes:
  "sc' \<in> set (rx_run r sc) \<Longrightarrow>
     \<exists>p. fst sc = p @ fst sc' \<and> (\<forall>ch\<in>set p. \<exists>a\<in>atoms r. atom_ok a ch)"
proof (induction r sc arbitrary: sc' rule: rx_run.induct)
  case (1 sc)
  then show ?case by (simp add: rx_run.simps)
next
  case (2 a sc)
  then obtain x where "fst sc = x # fst sc'" "atom_ok a x"
    unfolding rx_run_Atom_iff by blast
  then have "fst sc = [x] @ fst sc' \<and> (\<forall>ch\<in>set [x]. \<exists>b\<in>atoms (Atom a). atom_ok b ch)"
    by simp
  then show ?case by (rule exI)
next
  case (3 a b sc)
  from "3.prems" obtain mid where mid: "mid \<in> set (rx_run a sc)" and fin: "sc' \<in> set (rx_run b mid)"
    unfolding rx_run_Seq_iff by blast
  from "3.IH"(1) [OF mid] obtain p where p: "fst sc = p @ fst mid" "\<forall>ch\<in>set p. \<exists>a\<in>atoms a. atom_ok a ch"
    by blast
  from "3.IH"(2) [OF mid fin] obtain q where q: "fst mid = q @ fst sc'" "\<forall>ch\<in>set q. \<exists>a\<in>atoms b. atom_ok a ch"
    by blast
  from p q have "fst sc = (p @ q) @ fst sc' \<and> (\<forall>ch\<in>set (p @ q). \<exists>x\<in>atoms (Seq a b). atom_ok x ch)"
    by auto
  then show ?case by (rule exI)
next
  case (4 a b sc)
  from "4.prems" have "sc' \<in> set (rx_run a sc) \<or> sc' \<in> set (rx_run b sc)"
    unfolding rx_run_Alt_iff .
  then show ?case
  proof
    assume "sc' \<in> set (rx_run a sc)"
    from "4.IH"(1) [OF this] obtain p where "fst sc = p @ fst sc'" "\<forall>ch\<in>set p. \<exists>a\<in>atoms a. atom_ok a ch"
      by blast
    then have "fst sc = p @ fst sc' \<and> (\<forall>ch\<in>set p. \<exists>x\<in>atoms (Alt a b). atom_ok x ch)" by auto
    then show ?thesis by (rule exI)
  next
    assume "sc' \<in> set (rx_run b sc)"
    from "4.IH"(2) [OF this] obtain p where "fst sc = p @ fst sc'" "\<forall>ch\<in>set p. \<exists>a\<in>atoms b. atom_ok a ch"
      by blast
    then have "fst sc = p @ fst sc' \<and> (\<forall>ch\<in>set p. \<exists>x\<in>atoms (Alt a b). atom_ok x ch)" by auto
    then show ?thesis by (rule exI)
  qed
next
  case (5 a sc)
  from "5.prems" consider "sc' = sc"
    | mid where "mid \<in> set (rx_run a sc)" "length (fst mid) < length (fst sc)"
        "sc' \<in> set (rx_run (Star a) mid)"
    unfolding rx_run_Star_iff [of sc' a sc] by blast
  then show ?case
  proof cases
    case 1
    then show ?thesis by simp
  next
    case 2
    from "5.IH"(1) [OF 2(1)] obtain p where p: "fst sc = p @ fst mid" "\<forall>ch\<in>set p. \<exists>a\<in>atoms a. atom_ok a ch"
      by blast
    from "5.IH"(2) [OF 2(1) 2(2) 2(3)] obtain q where
      q: "fst mid = q @ fst sc'" "\<forall>ch\<in>set q. \<exists>x\<in>atoms (Star a). atom_ok x ch"
      by blast
    from p q have "fst sc = (p @ q) @ fst sc' \<and> (\<forall>ch\<in>set (p @ q). \<exists>x\<in>atoms (Star a). atom_ok x ch)"
      by auto
    then show ?thesis by (rule exI)
  qed
next
  case (6 a sc)
  from "6.prems" have "sc' \<in> set (rx_run a sc) \<or> sc' = sc"
    unfolding rx_run_Opt_iff .
  then show ?case
  proof
    assume "sc' \<in> set (rx_run a sc)"
    from "6.IH" [OF this] show ?thesis by simp
  next
    assume "sc' = sc"
    then show ?thesis by simp
  qed
next
  case (7 i a sc)
  from "7.prems" obtain mid where mid: "mid \<in> set (rx_run a sc)" and eq: "fst sc' = fst mid"
    unfolding rx_run_Group_iff by auto
  from "7.IH" [OF mid] eq show ?case by simp
qed

lemma rx_run_keeps:
  "sc' \<in> set (rx_run r sc) \<Longrightarrow> i \<notin> groups r \<Longrightarrow> snd sc' i = snd sc i"
proof (induction r sc arbitrary: sc' rule: rx_run.induct)
  case (1 sc)
  then show ?case by (simp add: rx_run.simps)
next
  case (2 a sc)
  then show ?case unfolding rx_run_Atom_iff by auto
next
  case (3 a b sc)
  from "3.prems" obtain mid where mid: "mid \<in> set (rx_run a sc)" and fin: "sc' \<in> set (rx_run b mid)"
    unfolding rx_run_Seq_iff by blast
  from "3.IH"(1) [OF mid] "3.IH"(2) [OF mid fin] "3.prems"(2) show ?case by simp
next
  case (4 a b sc)
  from "4.prems" have d: "sc' \<in> set (rx_run a sc) \<or> sc' \<in> set (rx_run b sc)"
    unfolding rx_run_Alt_iff by simp
  from "4.prems"(2) have ga: "i \<notin> groups a" and gb: "i \<notin> groups b" by simp_all
  from d show ?case
  proof
    assume "sc' \<in> set (rx_run a sc)"
    from "4.IH"(1) [OF this ga] show ?thesis .
  next
    assume "sc' \<in> set (rx_run b sc)"
    from "4.IH"(2) [OF this gb] show ?thesis .
  qed
next
  case (5 a sc)
  from "5.prems"(1) consider "sc' = sc"
    | mid where "mid \<in> set (rx_run a sc)" "length (fst mid) < length (fst sc)"
        "sc' \<in> set (rx_run (Star a) mid)"
    unfolding rx_run_Star_iff [of sc' a sc] by blast
  then show ?case
  proof cases
    case 1
    then show ?thesis by simp
  next
    case 2
    from "5.IH"(1) [OF 2(1)] "5.IH"(2) [OF 2(1) 2(2) 2(3)] "5.prems"(2) show ?thesis by simp
  qed
next
  case (6 a sc)
  from "6.prems" have d: "sc' \<in> set (rx_run a sc) \<or> sc' = sc"
    unfolding rx_run_Opt_iff by simp
  from "6.prems"(2) have ga: "i \<notin> groups a" by simp
  from d show ?case
  proof
    assume "sc' \<in> set (rx_run a sc)"
    from "6.IH" [OF this ga] show ?thesis .
  next
    assume "sc' = sc"
    then show ?thesis by simp
  qed
next
  case (7 j a sc)
  from "7.prems"(1) obtain mid where mid: "mid \<in> set (rx_run a sc)"
    and eq: "snd sc' = (snd mid)(j \<mapsto> take (length (fst sc) - length (fst mid)) (fst sc))"
    unfolding rx_run_Group_iff by auto
  from "7.IH" [OF mid] "7.prems"(2) eq show ?case by simp
qed

lemma rx_match_Some:
  "rx_match r s = Some m \<Longrightarrow> \<exists>t rest. (rest, m) \<in> set (rx_run r (t, Map.empty))"
proof (induction r s rule: rx_match.induct)
  case (1 r)
  show ?case
  proof (cases "rx_run r ([], Map.empty)")
    case Nil
    with 1 show ?thesis by simp
  next
    case (Cons a as)
    with "1.prems" have "a = (fst a, m)" by (cases a) simp
    with Cons have "(fst a, m) \<in> set (rx_run r ([], Map.empty))" by simp
    then show ?thesis by blast
  qed
next
  case (2 r x xs)
  show ?case
  proof (cases "rx_run r (x # xs, Map.empty)")
    case Nil
    with 2 show ?thesis by simp
  next
    case (Cons a as)
    with "2.prems" have "a = (fst a, m)" by (cases a) simp
    with Cons have "(fst a, m) \<in> set (rx_run r (x # xs, Map.empty))" by simp
    then show ?thesis by blast
  qed
qed


lemma is_digit_not_comma: "is_digit c \<Longrightarrow> c \<noteq> CHR '',''"
  by (auto simp: is_digit_def Let_def)

lemma is_digit_not_space: "is_digit c \<Longrightarrow> \<not> is_space c"
  unfolding is_digit_def is_space_def Let_def by linarith

lemma rx_run_shorter: "sc' \<in> set (rx_run r sc) \<Longrightarrow> length (fst sc') \<le> length (fst sc)"
  using rx_run_consumes [of sc' r sc] by auto

lemma groups_lit_i: "groups (lit_i w) = {}"
  by (induction w) simp_all

lemma number_rx_atoms:
  "atoms (Seq (Plus (Atom Digit)) (Star (Seq (Atom (Ch (CHR '',''))) (Plus (Atom Digit)))))
     = {Digit, Ch (CHR '','')}"
  by (auto simp: Plus_def)

text \<open>What the first group of a snippet pattern holds after a match: a digit followed
  by digits and commas.\<close>

lemma number_rx_run:
  assumes "n \<in> set (rx_run (Seq (Plus (Atom Digit))
             (Star (Seq (Atom (Ch (CHR '',''))) (Plus (Atom Digit))))) (t, c))"
  shows "\<exists>d ds. t = (d # ds) @ fst n \<and> is_digit d \<and> (\<forall>ch\<in>set ds. is_digit ch \<or> ch = CHR '','')"
proof -
  let ?tail = "Star (Seq (Atom (Ch (CHR '',''))) (Plus (Atom Digit)))"
  from rx_run_consumes [OF assms] obtain p where p: "t = p @ fst n"
    and chars: "\<forall>ch\<in>set p. \<exists>a\<in>{Digit, Ch (CHR '','')}. atom_ok a ch"
    unfolding number_rx_atoms by auto
  from assms obtain a1 where a1: "a1 \<in> set (rx_run (Plus (Atom Digit)) (t, c))"
    and a2: "n \<in> set (rx_run ?tail a1)"
    using rx_run_Seq_iff [of n "Plus (Atom Digit)" ?tail "(t, c)"] by blast
  from a1 obtain a0 where a0: "a0 \<in> set (rx_run (Atom Digit) (t, c))"
    and a01: "a1 \<in> set (rx_run (Star (Atom Digit)) a0)"
    using rx_run_Seq_iff [of a1 "Atom Digit" "Star (Atom Digit)" "(t, c)"]
    unfolding Plus_def by blast
  from a0 obtain d where d: "t = d # fst a0" "is_digit d"
    using rx_run_Atom_iff [of a0 Digit "(t, c)"] by auto
  from d(1) have "length (fst a0) < length t" by simp
  with rx_run_shorter [OF a01] rx_run_shorter [OF a2] have "length (fst n) < length t"
    by simp
  with p have "p \<noteq> []" by auto
  with p d(1) obtain ds where ds: "p = d # ds" by (cases p) auto
  from chars ds have "\<forall>ch\<in>set ds. is_digit ch \<or> ch = CHR '',''"
    by auto
  with p ds d(2) show ?thesis by blast
qed

lemma counter_rx_group:
  assumes "rx_match (counter_rx word final) s = Some m"
  shows "\<exists>d ds. m 1 = Some (d # ds) \<and> is_digit d \<and> (\<forall>ch\<in>set ds. is_digit ch \<or> ch = CHR '','')"
proof -
  let ?num = "Seq (Plus (Atom Digit)) (Star (Seq (Atom (Ch (CHR '',''))) (Plus (Atom Digit))))"
  let ?rest = "Seq (Star (Atom Space)) (Seq (lit_i word) (Opt (Atom (ChI final))))"
  from rx_match_Some [OF assms] obtain t rest
    where "(rest, m) \<in> set (rx_run (Seq (Group 1 ?num) ?rest) (t, Map.empty))"
    unfolding counter_rx_def by blast
  then obtain mid where mid: "mid \<in> set (rx_run (Group 1 ?num) (t, Map.empty))"
    and fin: "(rest, m) \<in> set (rx_run ?rest mid)"
    using rx_run_Seq_iff [of "(rest, m)" "Group 1 ?num" ?rest "(t, Map.empty)"] by blast
  from mid obtain n where n: "n \<in> set (rx_run ?num (t, Map.empty))"
    and cap: "snd mid 1 = Some (take (length t - length (fst n)) t)"
    using rx_run_Group_iff [of mid 1 ?num "(t, Map.empty)"] by auto
  from number_rx_run [OF n] obtain d ds where t: "t = (d # ds) @ fst n" and d: "is_digit d"
    and ds: "\<forall>ch\<in>set ds. is_digit ch \<or> ch = CHR '',''"
    by blast
  from t have "take (length t - length (fst n)) t = d # ds"
    by (metis add_diff_cancel_right' append_eq_conv_conj length_append)
  with cap have "snd mid 1 = Some (d # ds)" by simp
  moreover from rx_run_keeps [OF fin, of 1] have "m 1 = snd mid 1"
    by (simp add: groups_lit_i)
  ultimately have "m 1 = Some (d # ds)" by simp
  with d ds show ?thesis by blast
qed

lemma is_digit_not_sign: "is_digit c \<Longrightarrow> c \<noteq> CHR ''-'' \<and> c \<noteq> CHR ''+'' \<and> c \<noteq> CHR ''x'' \<and> c \<noteq> CHR ''X''"
  by (auto simp: is_digit_def Let_def)

lemma js_number_small: "n < 9007199254740992 \<Longrightarrow> js_number False n = JNum (int n)"
  by (simp add: js_number_def double_of_nat_def)

lemma js_number_0: "js_number False 0 = JNum 0"
  by (simp add: js_number_small)

text \<open>Just above \<open>2^53\<close> the doubles are the even numbers, and a tie goes to the
  multiple of four.\<close>

lemma bitlen_bounds: "2 ^ k \<le> n \<Longrightarrow> n < 2 ^ Suc k \<Longrightarrow> bitlen n = Suc k"
proof (induction k arbitrary: n)
  case 0
  then have "n = 1" by simp
  then show ?case by (simp add: bitlen.simps [of "Suc 0"] bitlen.simps [of 0])
next
  case (Suc k)
  from Suc.prems have n: "n \<noteq> 0" by auto
  from Suc.prems have "2 ^ k \<le> n div 2" "n div 2 < 2 ^ Suc k" by auto
  then have "bitlen (n div 2) = Suc k" by (rule Suc.IH)
  with n show ?case by (simp add: bitlen.simps [of n])
qed

lemma bitlen_example: "bitlen 9007199254740993 = 54"
proof -
  have "bitlen 9007199254740993 = Suc 53"
    by (rule bitlen_bounds) simp_all
  then show ?thesis by simp
qed

lemma js_number_rounds:
  "js_number False 9007199254740993 = JNum 9007199254740992"
  by (simp add: js_number_def double_of_nat_def bitlen_example Let_def)

text \<open>From \<open>2^1024\<close> on a number is infinite.\<close>

lemma bitlen_range: "0 < n \<Longrightarrow> 2 ^ (bitlen n - 1) \<le> n \<and> n < 2 ^ bitlen n"
proof (induction n rule: bitlen.induct)
  case (1 n)
  show ?case
  proof (cases "n div 2 = 0")
    case True
    with 1 have "n = 1" by (auto simp: div_eq_0_iff)
    then show ?thesis by (simp add: bitlen.simps [of "Suc 0"] bitlen.simps [of 0])
  next
    case False
    with 1 have ih: "2 ^ (bitlen (n div 2) - 1) \<le> n div 2" "n div 2 < 2 ^ bitlen (n div 2)"
      by auto
    from False have pos: "0 < bitlen (n div 2)" by (simp add: bitlen.simps [of "n div 2"])
    from 1 have b: "bitlen n = Suc (bitlen (n div 2))" by (simp add: bitlen.simps [of n])
    from pos have "(2::nat) ^ bitlen (n div 2) = 2 * 2 ^ (bitlen (n div 2) - 1)"
      by (cases "bitlen (n div 2)") simp_all
    then have eq: "(2::nat) ^ Suc (bitlen (n div 2)) = 4 * 2 ^ (bitlen (n div 2) - 1)"
      and eq': "(2::nat) ^ (Suc (bitlen (n div 2)) - 1) = 2 * 2 ^ (bitlen (n div 2) - 1)"
      by simp_all
    have "2 * 2 ^ (bitlen (n div 2) - 1) \<le> 2 * (n div 2)" using ih(1) by simp
    also have "\<dots> \<le> n" by simp
    finally have lo: "2 * 2 ^ (bitlen (n div 2) - 1) \<le> n" .
    have "n < 2 * (n div 2) + 2" by presburger
    also have "\<dots> = 2 * Suc (n div 2)" by simp
    also have "\<dots> \<le> 2 * (2 * 2 ^ (bitlen (n div 2) - 1))"
      using ih(2) unfolding \<open>2 ^ bitlen (n div 2) = 2 * 2 ^ (bitlen (n div 2) - 1)\<close>
      by (intro mult_le_mono2) simp
    finally have hi: "n < 4 * 2 ^ (bitlen (n div 2) - 1)" by simp
    from lo hi show ?thesis unfolding b eq eq' by simp
  qed
qed

lemma js_number_overflow:
  assumes "2 ^ 1024 \<le> n"
  shows "js_number negative n = (if negative then JNegInfinity else JInfinity)"
proof -
  from assms have pos: "0 < n" by (cases "n = 0") simp_all
  from bitlen_range [OF pos] have lo: "2 ^ (bitlen n - 1) \<le> n" and hi: "n < 2 ^ bitlen n"
    by simp_all
  from assms hi have "(2::nat) ^ 1024 < 2 ^ bitlen n" by (rule le_less_trans)
  then have big: "1024 < bitlen n" by (simp only: power_strict_increasing_iff rel_simps)
  define e where "e = bitlen n - 53"
  have split: "bitlen n - 1 = 52 + e" using big by (simp add: e_def)
  from lo have "2 ^ 52 * 2 ^ e \<le> n" by (simp only: split power_add)
  then have q: "2 ^ 52 \<le> n div 2 ^ e"
    by (simp add: less_eq_div_iff_mult_less_eq)
  have e: "971 < e" using big by (simp add: e_def)
  then have "(2::nat) ^ 972 \<le> 2 ^ e" by (intro power_increasing) simp_all
  with q have "(2::nat) ^ 52 * 2 ^ 972 \<le> (n div 2 ^ e) * 2 ^ e" by (rule mult_le_mono)
  then have m: "(2::nat) ^ 1024 \<le> (n div 2 ^ e) * 2 ^ e" by (simp only: power_add [symmetric]) simp
  then have m1: "(2::nat) ^ 1024 \<le> (n div 2 ^ e + 1) * 2 ^ e"
    by (rule order_trans) simp
  from assms have nb: "\<not> n < 9007199254740992" 
  proof -
    have "(9007199254740992::nat) \<le> 2 ^ 1024" by simp
    with assms show ?thesis by linarith
  qed
  from m m1 nb show ?thesis
    by (simp add: js_number_def double_of_nat_def Let_def e_def [symmetric] not_less del: power_Suc)
qed

lemma parseInt_digits:
  assumes "ds \<noteq> []" "\<forall>ch\<in>set ds. is_digit ch"
  shows "parseInt ds = js_number False (dec_value ds)"
proof -
  from assms obtain d rest where ds: "ds = d # rest" by (cases ds) auto
  with assms have d: "is_digit d" by simp
  then have "\<not> is_space d" by (rule is_digit_not_space)
  with ds have dw: "dropWhile is_space ds = ds" by simp
  from d ds have neg: "\<not> startsWith ds ''-''" and pos: "\<not> startsWith ds ''+''"
    using is_digit_not_sign [of d] by simp_all
  have hex: "\<not> startsWith ds ''0x'' \<and> \<not> startsWith ds ''0X''"
  proof (cases rest)
    case Nil
    with ds show ?thesis by simp
  next
    case (Cons r rs)
    with assms(2) ds have "is_digit r" by simp
    with is_digit_not_sign [of r] Cons ds show ?thesis by simp
  qed
  from assms(2) have tw: "takeWhile is_digit ds = ds" by (simp add: takeWhile_eq_all_conv)
  from assms(1) show ?thesis
    by (simp add: parseInt_def Let_def dw neg pos hex tw)
qed

lemma counter_extracted:
  "counter (rx_match (counter_rx word final) s) = Inr (js_number False (extracted word final s))"
proof (cases "rx_match (counter_rx word final) s")
  case None
  then show ?thesis by (simp add: counter_def extracted_def js_number_0)
next
  case (Some m)
  from counter_rx_group [OF Some] obtain d ds where g: "m 1 = Some (d # ds)" "is_digit d"
    "\<forall>ch\<in>set ds. is_digit ch \<or> ch = CHR '',''"
    by blast
  from g(2) have "strip_commas (d # ds) = d # strip_commas ds"
    by (simp add: strip_commas_def is_digit_not_comma)
  moreover from g(3) have "\<forall>ch\<in>set (strip_commas ds). is_digit ch"
    by (auto simp: strip_commas_def)
  ultimately have "parseInt (strip_commas (d # ds)) = js_number False (dec_value (strip_commas (d # ds)))"
    using g(2) by (intro parseInt_digits) auto
  with Some g(1) show ?thesis by (simp add: counter_def extracted_def)
qed

lemma extracted_examples:
  "extracted ''view'' CHR ''s'' ''12,345 views'' = 12345"
  "extracted ''upvote'' CHR ''s'' ''678 upvotes'' = 678"
  by (simp_all add: extracted_def counter_rx_def Plus_def rx_run.simps is_digit_def is_space_def
        upper_ascii_def strip_commas_def dec_value_def digit_val_def)

lemma parseInt_rounds: "parseInt ''9007199254740993'' = JNum 9007199254740992"
proof -
  have "parseInt ''9007199254740993'' = js_number False (dec_value ''9007199254740993'')"
    by (rule parseInt_digits) (simp_all add: is_digit_def)
  also have "dec_value ''9007199254740993'' = 9007199254740993"
    by (simp add: dec_value_def digit_val_def)
  finally show ?thesis by (simp add: js_number_rounds)
qed

section \<open>Properties of the fetchers and the dispatcher\<close>

lemma andThen_Inr_iff: "andThen x f = Inr y \<longleftrightarrow> (\<exists>a. x = Inr a \<and> f a = Inr y)"
  by (cases x) auto

lemma andThen_Inl_iff: "andThen x f = Inl e \<longleftrightarrow> x = Inl e \<or> (\<exists>a. x = Inr a \<and> f a = Inl e)"
  by (cases x) auto

lemma getRedditMetrics_try_Inr:
  "fst (getRedditMetrics_try w u) = Inr m \<Longrightarrow>
     platform m = ''reddit'' \<and> url m = u \<and> timestamp m = now w \<and> success m \<and> error m = None"
  by (auto simp: getRedditMetrics_try_def andThen_Inr_iff Let_def
           split: option.splits http_outcome.splits if_splits)

lemma getQuoraMetrics_try_Inr:
  "fst (getQuoraMetrics_try w u) = Inr m \<Longrightarrow>
     platform m = ''quora'' \<and> url m = u \<and> timestamp m = now w \<and> success m \<and> error m = None"
  by (auto simp: getQuoraMetrics_try_def andThen_Inr_iff Let_def
           split: option.splits http_outcome.splits if_splits)

lemma getTwitterMetrics_try_Inr:
  "fst (getTwitterMetrics_try w u) = Inr m \<Longrightarrow>
     platform m = ''twitter'' \<and> url m = u \<and> timestamp m = now w \<and> success m \<and> error m = None"
  by (auto simp: getTwitterMetrics_try_def andThen_Inr_iff Let_def
           split: option.splits http_outcome.splits if_splits)

lemma caught_shape:
  assumes "\<And>m. fst r = Inr m \<Longrightarrow>
             platform m = p \<and> url m = u \<and> timestamp m = now w \<and> success m \<and> error m = None"
  shows "platform (fst (caught p w u r)) = p \<and> url (fst (caught p w u r)) = u \<and>
         timestamp (fst (caught p w u r)) = now w \<and>
         (\<not> success (fst (caught p w u r)) \<longrightarrow>
            metrics (fst (caught p w u r)) = [] \<and> (\<exists>msg. error (fst (caught p w u r)) = Some msg)) \<and>
         (success (fst (caught p w u r)) \<longrightarrow> error (fst (caught p w u r)) = None)"
  using assms by (cases "fst r") (auto simp: caught_def failure_def)

lemma caught_Inl:
  "fst r = Inl e \<Longrightarrow> fst (caught p w u r) = failure p w u e"
  by (simp add: caught_def)

lemma getRedditMetrics_record:
  "platform (fst (getRedditMetrics w u)) = ''reddit'' \<and> url (fst (getRedditMetrics w u)) = u \<and>
   timestamp (fst (getRedditMetrics w u)) = now w \<and>
   (\<not> success (fst (getRedditMetrics w u)) \<longrightarrow>
      metrics (fst (getRedditMetrics w u)) = [] \<and> (\<exists>msg. error (fst (getRedditMetrics w u)) = Some msg)) \<and>
   (success (fst (getRedditMetrics w u)) \<longrightarrow> error (fst (getRedditMetrics w u)) = None)"
  unfolding getRedditMetrics_def by (rule caught_shape) (rule getRedditMetrics_try_Inr)

lemma getRedditMetrics_caught:
  "fst (getRedditMetrics_try w u) = Inl e \<Longrightarrow>
     fst (getRedditMetrics w u) =
       \<lparr>platform = ''reddit'', url = u, metrics = [], timestamp = now w, success = False,
        error = Some (error_message e)\<rparr>"
  by (simp add: getRedditMetrics_def caught_Inl failure_def)

lemma getQuoraMetrics_record:
  "platform (fst (getQuoraMetrics w u)) = ''quora'' \<and> url (fst (getQuoraMetrics w u)) = u \<and>
   timestamp (fst (getQuoraMetrics w u)) = now w \<and>
   (\<not> success (fst (getQuoraMetrics w u)) \<longrightarrow>
      metrics (fst (getQuoraMetrics w u)) = [] \<and> (\<exists>msg. error (fst (getQuoraMetrics w u)) = Some msg)) \<and>
   (success (fst (getQuoraMetrics w u)) \<longrightarrow> error (fst (getQuoraMetrics w u)) = None)"
  unfolding getQuoraMetrics_def by (rule caught_shape) (rule getQuoraMetrics_try_Inr)

lemma getQuoraMetrics_caught:
  "fst (getQuoraMetrics_try w u) = Inl e \<Longrightarrow>
     fst (getQuoraMetrics w u) =
       \<lparr>platform = ''quora'', url = u, metrics = [], timestamp = now w, success = False,
        error = Some (error_message e)\<rparr>"
  by (simp add: getQuoraMetrics_def caught_Inl failure_def)

lemma getTwitterMetrics_record:
  "platform (fst (getTwitterMetrics w u)) = ''twitter'' \<and> url (fst (getTwitterMetrics w u)) = u \<and>
   timestamp (fst (getTwitterMetrics w u)) = now w \<and>
   (\<not> success (fst (getTwitterMetrics w u)) \<longrightarrow>
      metrics (fst (getTwitterMetrics w u)) = [] \<and> (\<exists>msg. error (fst (getTwitterMetrics w u)) = Some msg)) \<and>
   (success (fst (getTwitterMetrics w u)) \<longrightarrow> error (fst (getTwitterMetrics w u)) = None)"
  unfolding getTwitterMetrics_def by (rule caught_shape) (rule getTwitterMetrics_try_Inr)

lemma getTwitterMetrics_caught:
  "fst (getTwitterMetrics_try w u) = Inl e \<Longrightarrow>
     fst (getTwitterMetrics w u) =
       \<lparr>platform = ''twitter'', url = u, metrics = [], timestamp = now w, success = False,
        error = Some (error_message e)\<rparr>"
  by (simp add: getTwitterMetrics_def caught_Inl failure_def)

text \<open>
  Claim C1.  The dispatcher decides on the lower-cased URL, first match wins:
  \<open>reddit.com\<close>, then \<open>quora.com\<close>, then \<open>twitter.com\<close> or \<open>x.com\<close>; it hands
  the original URL to the fetcher it picks, and otherwise returns the
  "unsupported platform" record without any request.  The platform of the record
  follows the route, the record carries the URL as it was given, and two URLs that
  differ only in letter case get the same platform.
\<close>

theorem dispatcher_routes:
  "getSocialMetrics w u =
     (if str_includes (toLowerCase u) ''reddit.com'' then getRedditMetrics w u
      else if str_includes (toLowerCase u) ''quora.com'' then getQuoraMetrics w u
      else if str_includes (toLowerCase u) ''twitter.com'' \<or> str_includes (toLowerCase u) ''x.com''
           then getTwitterMetrics w u
      else (\<lparr>platform = ''unknown'', url = u, metrics = [], timestamp = now w, success = False,
             error = Some ''Unsupported platform. Supported: Reddit, Quora, Twitter/X''\<rparr>, []))
   \<and> platform (fst (getSocialMetrics w u)) =
     (if str_includes (toLowerCase u) ''reddit.com'' then ''reddit''
      else if str_includes (toLowerCase u) ''quora.com'' then ''quora''
      else if str_includes (toLowerCase u) ''twitter.com'' \<or> str_includes (toLowerCase u) ''x.com''
           then ''twitter''
      else ''unknown'')
   \<and> url (fst (getSocialMetrics w u)) = u
   \<and> (\<forall>u'. toLowerCase u' = toLowerCase u \<longrightarrow>
          platform (fst (getSocialMetrics w u')) = platform (fst (getSocialMetrics w u)))"
  by (simp add: getSocialMetrics_def unsupported_def getRedditMetrics_record
        getQuoraMetrics_record getTwitterMetrics_record)

theorem dispatcher_routes_witness:
  "platform (fst (getSocialMetrics world_down ''https://WWW.Reddit.com/r/x/comments/1'')) = ''reddit''
   \<and> platform (fst (getSocialMetrics world_down ''https://www.reddit.com/r/x/comments/1'')) = ''reddit''
   \<and> url (fst (getSocialMetrics world_down ''https://WWW.Reddit.com/r/x/comments/1''))
       = ''https://WWW.Reddit.com/r/x/comments/1''
   \<and> getSocialMetrics world_down ''https://example.com/not-social'' =
       (\<lparr>platform = ''unknown'', url = ''https://example.com/not-social'', metrics = [],
         timestamp = ''2025-01-01T00:00:00.000Z'', success = False,
         error = Some ''Unsupported platform. Supported: Reddit, Quora, Twitter/X''\<rparr>, [])"
proof -
  have same: "toLowerCase ''https://www.reddit.com/r/x/comments/1''
                = toLowerCase ''https://WWW.Reddit.com/r/x/comments/1''"
    by (simp add: toLowerCase_def lower_char_def)
  have r: "str_includes (toLowerCase ''https://WWW.Reddit.com/r/x/comments/1'') ''reddit.com''"
    by (simp add: toLowerCase_def lower_char_def)
  have e: "toLowerCase ''https://example.com/not-social'' = ''https://example.com/not-social''"
    by (simp add: toLowerCase_def lower_char_def)
  note A = dispatcher_routes [of world_down "''https://WWW.Reddit.com/r/x/comments/1''"]
  note B = dispatcher_routes [of world_down "''https://example.com/not-social''"]
  from A [THEN conjunct2, THEN conjunct1] r have 1: "platform (fst (getSocialMetrics world_down ''https://WWW.Reddit.com/r/x/comments/1'')) = ''reddit''"
    by simp
  from A same have 2: "platform (fst (getSocialMetrics world_down ''https://www.reddit.com/r/x/comments/1''))
      = platform (fst (getSocialMetrics world_down ''https://WWW.Reddit.com/r/x/comments/1''))"
    by blast
  from A have 3: "url (fst (getSocialMetrics world_down ''https://WWW.Reddit.com/r/x/comments/1''))
       = ''https://WWW.Reddit.com/r/x/comments/1''"
    by blast
  from B e have 4: "getSocialMetrics world_down ''https://example.com/not-social'' =
       (\<lparr>platform = ''unknown'', url = ''https://example.com/not-social'', metrics = [],
         timestamp = ''2025-01-01T00:00:00.000Z'', success = False,
         error = Some ''Unsupported platform. Supported: Reddit, Quora, Twitter/X''\<rparr>, [])"
    by (simp add: world_down_def)
  from 1 2 3 4 show ?thesis by simp
qed

text \<open>
  The dispatcher ignores letter case, the pattern of the Reddit fetcher does not: a
  URL with an upper-case host is routed to the fetcher and refused there, before any
  request.
\<close>

lemma upper_case_host_routed_then_refused:
  "getSocialMetrics world_down ''https://REDDIT.COM/r/x/comments/1'' =
     (\<lparr>platform = ''reddit'', url = ''https://REDDIT.COM/r/x/comments/1'', metrics = [],
       timestamp = ''2025-01-01T00:00:00.000Z'', success = False,
       error = Some ''Invalid Reddit URL format''\<rparr>, [])"
  by (simp add: getSocialMetrics_def toLowerCase_def lower_char_def getRedditMetrics_def
        getRedditMetrics_try_def caught_def failure_def error_message_def reddit_rx_def
        Plus_def rx_run.simps world_down_def)

text \<open>
  Claim C2.  Whatever the network does, each fetcher returns a record: of its own
  platform, with the URL as given and the time of the clock; a record with
  \<open>success = false\<close> has no metrics and has an error message, a record with
  \<open>success = true\<close> has no error; and whatever is thrown inside the attempt comes
  back as the failure record with that error's message.
\<close>

theorem fetchers_never_throw:
  "(platform (fst (getRedditMetrics w u)) = ''reddit'' \<and> url (fst (getRedditMetrics w u)) = u \<and>
    timestamp (fst (getRedditMetrics w u)) = now w \<and>
    (\<not> success (fst (getRedditMetrics w u)) \<longrightarrow>
       metrics (fst (getRedditMetrics w u)) = [] \<and> (\<exists>msg. error (fst (getRedditMetrics w u)) = Some msg)) \<and>
    (success (fst (getRedditMetrics w u)) \<longrightarrow> error (fst (getRedditMetrics w u)) = None) \<and>
    (\<forall>e. fst (getRedditMetrics_try w u) = Inl e \<longrightarrow>
       fst (getRedditMetrics w u) =
         \<lparr>platform = ''reddit'', url = u, metrics = [], timestamp = now w, success = False,
          error = Some (error_message e)\<rparr>))
 \<and> (platform (fst (getQuoraMetrics w u)) = ''quora'' \<and> url (fst (getQuoraMetrics w u)) = u \<and>
    timestamp (fst (getQuoraMetrics w u)) = now w \<and>
    (\<not> success (fst (getQuoraMetrics w u)) \<longrightarrow>
       metrics (fst (getQuoraMetrics w u)) = [] \<and> (\<exists>msg. error (fst (getQuoraMetrics w u)) = Some msg)) \<and>
    (success (fst (getQuoraMetrics w u)) \<longrightarrow> error (fst (getQuoraMetrics w u)) = None) \<and>
    (\<forall>e. fst (getQuoraMetrics_try w u) = Inl e \<longrightarrow>
       fst (getQuoraMetrics w u) =
         \<lparr>platform = ''quora'', url = u, metrics = [], timestamp = now w, success = False,
          error = Some (error_message e)\<rparr>))
 \<and> (platform (fst (getTwitterMetrics w u)) = ''twitter'' \<and> url (fst (getTwitterMetrics w u)) = u \<and>
    timestamp (fst (getTwitterMetrics w u)) = now w \<and>
    (\<not> success (fst (getTwitterMetrics w u)) \<longrightarrow>
       metrics (fst (getTwitterMetrics w u)) = [] \<and> (\<exists>msg. error (fst (getTwitterMetrics w u)) = Some msg)) \<and>
    (success (fst (getTwitterMetrics w u)) \<longrightarrow> error (fst (getTwitterMetrics w u)) = None) \<and>
    (\<forall>e. fst (getTwitterMetrics_try w u) = Inl e \<longrightarrow>
       fst (getTwitterMetrics w u) =
         \<lparr>platform = ''twitter'', url = u, metrics = [], timestamp = now w, success = False,
          error = Some (error_message e)\<rparr>))"
  using getRedditMetrics_record [of w u] getRedditMetrics_caught [of w u]
    getQuoraMetrics_record [of w u] getQuoraMetrics_caught [of w u]
    getTwitterMetrics_record [of w u] getTwitterMetrics_caught [of w u]
  by blast

theorem fetchers_never_throw_witness:
  "fst (getRedditMetrics world_down ''https://reddit.com/r/x/comments/1'') =
     \<lparr>platform = ''reddit'', url = ''https://reddit.com/r/x/comments/1'', metrics = [],
      timestamp = ''2025-01-01T00:00:00.000Z'', success = False, error = Some ''fetch failed''\<rparr>
   \<and> metrics (fst (getQuoraMetrics world_down ''https://quora.com/q'')) = []
   \<and> (\<exists>msg. error (fst (getTwitterMetrics world_down ''https://x.com/a/status/1'')) = Some msg)"
proof -
  note A = fetchers_never_throw [of world_down "''https://reddit.com/r/x/comments/1''"]
  note B = fetchers_never_throw [of world_down "''https://quora.com/q''"]
  note C = fetchers_never_throw [of world_down "''https://x.com/a/status/1''"]
  have r: "fst (getRedditMetrics_try world_down ''https://reddit.com/r/x/comments/1'')
             = Inl (Error ''fetch failed'')"
    by (simp add: getRedditMetrics_try_def reddit_rx_def Plus_def rx_run.simps world_down_def)
  have q: "\<not> success (fst (getQuoraMetrics world_down ''https://quora.com/q''))"
    by (simp add: getQuoraMetrics_def getQuoraMetrics_try_def caught_def failure_def world_down_def)
  have t: "\<not> success (fst (getTwitterMetrics world_down ''https://x.com/a/status/1''))"
    by (simp add: getTwitterMetrics_def getTwitterMetrics_try_def caught_def failure_def
          twitter_rx_def Plus_def rx_run.simps world_down_def is_digit_def)
  from A r have 1: "fst (getRedditMetrics world_down ''https://reddit.com/r/x/comments/1'') =
     \<lparr>platform = ''reddit'', url = ''https://reddit.com/r/x/comments/1'', metrics = [],
      timestamp = now world_down, success = False, error = Some (error_message (Error ''fetch failed''))\<rparr>"
    by blast
  from B q have 2: "metrics (fst (getQuoraMetrics world_down ''https://quora.com/q'')) = []"
    by blast
  from C t have 3: "\<exists>msg. error (fst (getTwitterMetrics world_down ''https://x.com/a/status/1'')) = Some msg"
    by blast
  from 1 2 3 show ?thesis by (simp add: world_down_def error_message_def)
qed

lemma Promise_all_Fulfilled: "Promise_all (map (\<lambda>x. Fulfilled (f x)) xs) = Fulfilled (map f xs)"
  by (induction xs) simp_all

lemma map_enumerate_nth:
  "map (\<lambda>(i, x). f i x) (enumerate 0 xs) = map (\<lambda>i. f i (xs ! i)) [0..<length xs]"
  by (rule nth_equalityI) (simp_all add: nth_enumerate_eq)

lemma getBulkSocialMetrics_eq:
  "getBulkSocialMetrics ws urls =
     Fulfilled (map (\<lambda>i. fst (getSocialMetrics (ws i) (urls ! i))) [0..<length urls])"
proof -
  have "map (\<lambda>(i, u). getSocialMetrics_promise (ws i) u) (enumerate 0 urls)
          = map (\<lambda>i. Fulfilled (fst (getSocialMetrics (ws i) (urls ! i)))) [0..<length urls]"
    unfolding getSocialMetrics_promise_def by (rule map_enumerate_nth)
  then show ?thesis
    by (simp add: getBulkSocialMetrics_def Promise_all_Fulfilled)
qed

text \<open>
  Claim C3.  The bulk fetch always fulfils, with one record per URL, in the order of
  the URLs: the record at index \<open>i\<close> is the dispatcher's for the URL at index \<open>i\<close>,
  run in the world of that task.  So it depends on nothing but its own task: changing
  what the other tasks meet (a failing network, say) leaves it as it was.
\<close>

theorem bulk_in_order:
  "(\<exists>rs. getBulkSocialMetrics ws urls = Fulfilled rs \<and> length rs = length urls \<and>
         (\<forall>i<length urls. rs ! i = fst (getSocialMetrics (ws i) (urls ! i))))
   \<and> (\<forall>ws' rs rs' i. getBulkSocialMetrics ws urls = Fulfilled rs \<and>
         getBulkSocialMetrics ws' urls = Fulfilled rs' \<and> i < length urls \<and> ws' i = ws i
         \<longrightarrow> rs' ! i = rs ! i)"
  by (auto simp: getBulkSocialMetrics_eq)

theorem bulk_in_order_witness:
  "getBulkSocialMetrics (\<lambda>i. if i = 0 then world_down else world_with (JObj []))
     [''https://reddit.com/r/x/comments/1'', ''https://x.com/a/status/1''] =
   Fulfilled
     [\<lparr>platform = ''reddit'', url = ''https://reddit.com/r/x/comments/1'', metrics = [],
       timestamp = ''2025-01-01T00:00:00.000Z'', success = False, error = Some ''fetch failed''\<rparr>,
      \<lparr>platform = ''twitter'', url = ''https://x.com/a/status/1'',
       metrics = [(''likes'', JNum 0), (''retweets'', JNum 0), (''replies'', JNum 0),
                  (''quotes'', JNum 0), (''bookmarks'', JNum 0)],
       timestamp = ''2025-01-01T00:00:00.000Z'', success = True, error = None\<rparr>]"
proof -
  let ?ws = "\<lambda>i::nat. if i = 0 then world_down else world_with (JObj [])"
  let ?u0 = "''https://reddit.com/r/x/comments/1''"
  let ?u1 = "''https://x.com/a/status/1''"
  from bulk_in_order [of ?ws "[?u0, ?u1]", THEN conjunct1]
  obtain rs where rs: "getBulkSocialMetrics ?ws [?u0, ?u1] = Fulfilled rs"
    and len: "length rs = length [?u0, ?u1]"
    and nth: "\<forall>i<length [?u0, ?u1]. rs ! i = fst (getSocialMetrics (?ws i) ([?u0, ?u1] ! i))"
    by blast
  have 0: "fst (getSocialMetrics world_down ?u0) =
     \<lparr>platform = ''reddit'', url = ''https://reddit.com/r/x/comments/1'', metrics = [],
       timestamp = ''2025-01-01T00:00:00.000Z'', success = False, error = Some ''fetch failed''\<rparr>"
    by (simp add: getSocialMetrics_def toLowerCase_def lower_char_def getRedditMetrics_def
          getRedditMetrics_try_def caught_def failure_def error_message_def reddit_rx_def
          Plus_def rx_run.simps world_down_def)
  have 1: "fst (getSocialMetrics (world_with (JObj [])) ?u1) =
      \<lparr>platform = ''twitter'', url = ''https://x.com/a/status/1'',
       metrics = [(''likes'', JNum 0), (''retweets'', JNum 0), (''replies'', JNum 0),
                  (''quotes'', JNum 0), (''bookmarks'', JNum 0)],
       timestamp = ''2025-01-01T00:00:00.000Z'', success = True, error = None\<rparr>"
    by (simp add: getSocialMetrics_def toLowerCase_def lower_char_def getTwitterMetrics_def
          getTwitterMetrics_try_def caught_def twitter_rx_def counter_rx_def counter_def
          Plus_def rx_run.simps world_with_def is_digit_def or_else_def first_capture_def)
  from nth have n0: "rs ! 0 = fst (getSocialMetrics world_down ?u0)"
    by simp
  from nth have n1: "rs ! 1 = fst (getSocialMetrics (world_with (JObj [])) ?u1)"
    by simp
  from len obtain a b where ab: "rs = [a, b]"
    by (cases rs; cases "tl rs") simp_all
  from ab n0 n1 have "rs = [fst (getSocialMetrics world_down ?u0),
      fst (getSocialMetrics (world_with (JObj [])) ?u1)]"
    by simp
  with rs show ?thesis unfolding 0 1 by simp
qed

section \<open>The search-proxy fetchers without a result\<close>

lemma rx_match_counter_rx_empty: "rx_match (counter_rx word final) [] = None"
  by (simp add: counter_rx_def Plus_def rx_run.simps)

lemma extracted_empty: "extracted word final [] = 0"
  by (simp add: extracted_def rx_match_counter_rx_empty del: rx_match.simps)

lemma no_organic_result_cases:
  assumes "no_organic_result data"
  obtains kvs where "data = JObj kvs" "map_of kvs ''organic'' = None"
  | kvs where "data = JObj kvs" "map_of kvs ''organic'' = Some JNull"
  | kvs where "data = JObj kvs" "map_of kvs ''organic'' = Some (JArr [])"
  using assms by (cases data) (auto split: option.splits)

lemma no_organic_result_first:
  assumes "no_organic_result data"
  shows "andThen (js_get data ''organic'')
           (\<lambda>organic. andThen (if nullish organic then Inr JUndefined else js_get organic ''0'') f)
         = f JUndefined"
  using assms
  by (cases rule: no_organic_result_cases) (simp_all add: array_index_def is_digit_def)

text \<open>
  Claim C4.  When the search proxy answers 2xx with a payload that holds no organic
  result, the Quora fetcher fails with "Quora post not found in search results",
  while the Twitter fetcher (on a URL with a status id, so that it asks the proxy at
  all) reads an empty snippet and succeeds with likes, retweets, replies, quotes and
  bookmarks all 0.
\<close>

theorem no_organic_result_quora_twitter:
  assumes "\<forall>req. fetch w req = Responds resp" and "ok resp" and "json resp = Inr data"
    and "no_organic_result data"
  shows "fst (getQuoraMetrics w u) =
           \<lparr>platform = ''quora'', url = u, metrics = [], timestamp = now w, success = False,
            error = Some ''Quora post not found in search results''\<rparr>
       \<and> (rx_match twitter_rx u \<noteq> None \<longrightarrow>
          fst (getTwitterMetrics w u) =
            \<lparr>platform = ''twitter'', url = u,
             metrics = [(''likes'', JNum 0), (''retweets'', JNum 0), (''replies'', JNum 0),
                        (''quotes'', JNum 0), (''bookmarks'', JNum 0)],
             timestamp = now w, success = True, error = None\<rparr>)"
proof
  show "fst (getQuoraMetrics w u) =
           \<lparr>platform = ''quora'', url = u, metrics = [], timestamp = now w, success = False,
            error = Some ''Quora post not found in search results''\<rparr>"
    using assms(1-3)
    by (simp add: getQuoraMetrics_def getQuoraMetrics_try_def caught_def failure_def
          error_message_def no_organic_result_first [OF assms(4)])
next
  show "rx_match twitter_rx u \<noteq> None \<longrightarrow>
          fst (getTwitterMetrics w u) =
            \<lparr>platform = ''twitter'', url = u,
             metrics = [(''likes'', JNum 0), (''retweets'', JNum 0), (''replies'', JNum 0),
                        (''quotes'', JNum 0), (''bookmarks'', JNum 0)],
             timestamp = now w, success = True, error = None\<rparr>"
  proof
    assume "rx_match twitter_rx u \<noteq> None"
    then obtain m where m: "rx_match twitter_rx u = Some m" by blast
    show "fst (getTwitterMetrics w u) =
            \<lparr>platform = ''twitter'', url = u,
             metrics = [(''likes'', JNum 0), (''retweets'', JNum 0), (''replies'', JNum 0),
                        (''quotes'', JNum 0), (''bookmarks'', JNum 0)],
             timestamp = now w, success = True, error = None\<rparr>"
      using assms(1-3) m
      by (simp add: getTwitterMetrics_def getTwitterMetrics_try_def caught_def
            no_organic_result_first [OF assms(4)] or_else_def counter_extracted extracted_empty
            js_number_0
            del: rx_match.simps)
  qed
qed

theorem no_organic_result_quora_twitter_witness:
  "fst (getQuoraMetrics (world_with (JObj [(''organic'', JArr [])])) ''https://www.quora.com/What-is-x'') =
     \<lparr>platform = ''quora'', url = ''https://www.quora.com/What-is-x'', metrics = [],
      timestamp = ''2025-01-01T00:00:00.000Z'', success = False,
      error = Some ''Quora post not found in search results''\<rparr>
   \<and> fst (getTwitterMetrics (world_with (JObj [(''organic'', JArr [])])) ''https://x.com/a/status/1'') =
     \<lparr>platform = ''twitter'', url = ''https://x.com/a/status/1'',
      metrics = [(''likes'', JNum 0), (''retweets'', JNum 0), (''replies'', JNum 0),
                 (''quotes'', JNum 0), (''bookmarks'', JNum 0)],
      timestamp = ''2025-01-01T00:00:00.000Z'', success = True, error = None\<rparr>"
proof -
  let ?data = "JObj [(''organic'', JArr [])]"
  let ?resp = "\<lparr>ok = True, statusText = ''OK'', json = Inr ?data\<rparr>"
  have f: "\<forall>req. fetch (world_with ?data) req = Responds ?resp"
    by (simp add: world_with_def)
  have o: "ok ?resp" and j: "json ?resp = Inr ?data" and n: "no_organic_result ?data"
    by simp_all
  have t: "rx_match twitter_rx ''https://x.com/a/status/1'' \<noteq> None"
    by (simp add: twitter_rx_def Plus_def rx_run.simps is_digit_def)
  have now: "now (world_with ?data) = ''2025-01-01T00:00:00.000Z''"
    by (simp add: world_with_def)
  from no_organic_result_quora_twitter [OF f o j n, of "''https://www.quora.com/What-is-x''"]
    no_organic_result_quora_twitter [OF f o j n, of "''https://x.com/a/status/1''"] t
  show ?thesis unfolding now by blast
qed

section \<open>The Reddit fetcher\<close>

lemma array_index_0: "array_index ''0'' = Some 0"
  by (simp add: array_index_def is_digit_def dec_value_def digit_val_def)

lemma reddit_postData_listing: "reddit_postData (reddit_listing postData) = Inr postData"
  by (simp add: reddit_postData_def reddit_listing_def array_index_0)

lemma reddit_postData_missing:
  "reddit_postData (JArr []) = Inr JUndefined"
  "reddit_postData (JObj []) = Inr JUndefined"
  "reddit_postData (JArr [JObj []]) = Inr JUndefined"
  "reddit_postData (JArr [JObj [(''data'', JObj [(''children'', JArr [])])]]) = Inr JUndefined"
  by (simp_all add: reddit_postData_def array_index_0)

lemma getRedditMetrics_invalid_url:
  assumes "rx_match reddit_rx u = None"
  shows "getRedditMetrics w u =
           (\<lparr>platform = ''reddit'', url = u, metrics = [], timestamp = now w, success = False,
             error = Some ''Invalid Reddit URL format''\<rparr>, [])"
  using assms
  by (simp add: getRedditMetrics_def getRedditMetrics_try_def caught_def failure_def
        error_message_def)

lemma getRedditMetrics_not_ok:
  assumes "rx_match reddit_rx u = Some m" and "\<forall>req. fetch w req = Responds resp"
    and "\<not> ok resp"
  shows "fst (getRedditMetrics w u) =
           \<lparr>platform = ''reddit'', url = u, metrics = [], timestamp = now w, success = False,
            error = Some (''Reddit API error: '' @ statusText resp)\<rparr>"
  using assms
  by (simp add: getRedditMetrics_def getRedditMetrics_try_def caught_def failure_def
        error_message_def Let_def)

lemma getRedditMetrics_not_found:
  assumes "rx_match reddit_rx u = Some m" and "\<forall>req. fetch w req = Responds resp"
    and "ok resp" and "json resp = Inr data"
    and "reddit_postData data = Inr postData" and "\<not> truthy postData"
  shows "fst (getRedditMetrics w u) =
           \<lparr>platform = ''reddit'', url = u, metrics = [], timestamp = now w, success = False,
            error = Some ''Reddit post data not found''\<rparr>"
  using assms
  by (simp add: getRedditMetrics_def getRedditMetrics_try_def caught_def failure_def
        error_message_def Let_def)

lemma field_or_0_number:
  "map_of flds k = Some (JNum n) \<Longrightarrow> field_or_0 flds k = JNum n"
  "map_of flds k = None \<Longrightarrow> field_or_0 flds k = JNum 0"
  by (simp_all add: field_or_0_def)

lemma getRedditMetrics_found:
  assumes "rx_match reddit_rx u = Some m" and "\<forall>req. fetch w req = Responds resp"
    and "ok resp" and "json resp = Inr data"
    and "reddit_postData data = Inr (JObj flds)"
  shows "fst (getRedditMetrics w u) =
           \<lparr>platform = ''reddit'', url = u,
            metrics = [(''upvotes'', field_or_0 flds ''ups''),
                       (''downvotes'', field_or_0 flds ''downs''),
                       (''comments'', field_or_0 flds ''num_comments''),
                       (''awards'', field_or_0 flds ''total_awards_received'')],
            timestamp = now w, success = True, error = None\<rparr>"
  using assms
  by (simp add: getRedditMetrics_def getRedditMetrics_try_def caught_def Let_def
        or_else_def field_or_0_def split: option.splits)

lemma reddit_rx_example:
  "\<exists>m. rx_match reddit_rx ''https://reddit.com/r/programming/comments/abc123/title'' = Some m
       \<and> m 1 = Some ''abc123''"
  by (simp add: reddit_rx_def Plus_def rx_run.simps)

lemma getRedditMetrics_example:
  "getRedditMetrics
     (world_with (reddit_listing (JObj [(''ups'', JNum 42), (''downs'', JNum 3),
                                        (''num_comments'', JNum 7),
                                        (''total_awards_received'', JNum 1)])))
     ''https://reddit.com/r/programming/comments/abc123/title'' =
   (\<lparr>platform = ''reddit'', url = ''https://reddit.com/r/programming/comments/abc123/title'',
     metrics = [(''upvotes'', JNum 42), (''downvotes'', JNum 3), (''comments'', JNum 7),
                (''awards'', JNum 1)],
     timestamp = ''2025-01-01T00:00:00.000Z'', success = True, error = None\<rparr>,
    [\<lparr>req_url = ''https://www.reddit.com/comments/abc123.json'', req_method = ''GET'',
      req_headers = [(''User-Agent'', ''SocialMonitor-AI/1.0 (Social Media Analytics Tool)''),
                     (''Accept'', ''application/json'')],
      req_body = None\<rparr>])"
  by (simp add: getRedditMetrics_def getRedditMetrics_try_def caught_def Let_def
        reddit_rx_def Plus_def rx_run.simps world_with_def reddit_request_def template_def
        reddit_postData_listing or_else_def)

lemma getRedditMetrics_null_payload:
  "error (fst (getRedditMetrics (world_with JNull)
        ''https://reddit.com/r/programming/comments/abc123/title''))
     = Some (''Cannot read properties of null (reading '' @ quote @ ''0'' @ quote @ '')'')"
  by (simp add: getRedditMetrics_def getRedditMetrics_try_def caught_def Let_def failure_def
        error_message_def reddit_rx_def Plus_def rx_run.simps world_with_def reddit_request_def
        template_def reddit_postData_def quote_def)

text \<open>
  Claim C5.  A payload whose first listing has a \<open>data\<close> object without
  \<open>children\<close> misses the expected shape, yet the fetcher does not answer "Reddit
  post data not found": the unguarded read \<open>children[0]\<close> throws, and the record carries
  the engine's message.
\<close>

theorem reddit_children_unguarded:
  "fst (getRedditMetrics (world_with (JArr [JObj [(''data'', JObj [])]]))
         ''https://reddit.com/r/programming/comments/abc123/title'') =
     \<lparr>platform = ''reddit'', url = ''https://reddit.com/r/programming/comments/abc123/title'',
      metrics = [], timestamp = ''2025-01-01T00:00:00.000Z'', success = False,
      error = Some (''Cannot read properties of undefined (reading '' @ quote @ ''0'' @ quote @ '')'')\<rparr>
   \<and> error (fst (getRedditMetrics (world_with (JArr [JObj [(''data'', JObj [])]]))
         ''https://reddit.com/r/programming/comments/abc123/title''))
       \<noteq> Some ''Reddit post data not found''"
  by (simp add: getRedditMetrics_def getRedditMetrics_try_def caught_def Let_def failure_def
        error_message_def reddit_rx_def Plus_def rx_run.simps world_with_def reddit_request_def
        template_def reddit_postData_def array_index_0 quote_def)

section \<open>The Quora counters\<close>

text \<open>
  Claim C8, as the code has it.  When the search proxy answers 2xx with an organic
  result whose snippet is a text (or is missing, which reads as the empty text), the
  Quora fetcher succeeds with exactly the keys \<open>views\<close>, \<open>upvotes_quora\<close> and
  \<open>shares\<close>: the first two are the numbers the patterns extract from the snippet
  (commas taken out, 0 when the pattern has no match), and \<open>shares\<close> is 0.  The
  numbers are JavaScript numbers: the extracted integer itself when it is below
  \<open>2^53\<close>, and the double nearest to it otherwise.
\<close>

theorem quora_counters:
  assumes "\<forall>req. fetch w req = Responds resp" and "ok resp"
    and "json resp = Inr (JObj kvs)"
    and "map_of kvs ''organic'' = Some (JArr (JObj flds # others))"
    and "map_of flds ''snippet'' = Some (JStr text) \<or> (map_of flds ''snippet'' = None \<and> text = [])"
  shows "fst (getQuoraMetrics w u) =
           \<lparr>platform = ''quora'', url = u,
            metrics = [(''views'', js_number False (extracted ''view'' CHR ''s'' text)),
                       (''upvotes_quora'', js_number False (extracted ''upvote'' CHR ''s'' text)),
                       (''shares'', JNum 0)],
            timestamp = now w, success = True, error = None\<rparr>
       \<and> (extracted ''view'' CHR ''s'' text < 9007199254740992 \<longrightarrow>
            map_of (metrics (fst (getQuoraMetrics w u))) ''views''
              = Some (JNum (int (extracted ''view'' CHR ''s'' text))))
       \<and> (extracted ''upvote'' CHR ''s'' text < 9007199254740992 \<longrightarrow>
            map_of (metrics (fst (getQuoraMetrics w u))) ''upvotes_quora''
              = Some (JNum (int (extracted ''upvote'' CHR ''s'' text))))"
proof -
  from assms(5) have sn: "or_else (case map_of flds ''snippet'' of None \<Rightarrow> JUndefined | Some v \<Rightarrow> v)
                            (JStr '''') = JStr text"
    by (auto simp: or_else_def)
  from assms(1-4) have r: "fst (getQuoraMetrics w u) =
           \<lparr>platform = ''quora'', url = u,
            metrics = [(''views'', js_number False (extracted ''view'' CHR ''s'' text)),
                       (''upvotes_quora'', js_number False (extracted ''upvote'' CHR ''s'' text)),
                       (''shares'', JNum 0)],
            timestamp = now w, success = True, error = None\<rparr>"
    by (simp add: getQuoraMetrics_def getQuoraMetrics_try_def caught_def Let_def array_index_0
          sn counter_extracted del: rx_match.simps)
  show ?thesis unfolding r by (simp add: js_number_small)
qed

theorem quora_counters_witness:
  "fst (getQuoraMetrics (world_with (serper_payload (JStr ''12,345 views'')))
         ''https://www.quora.com/What-is-x'') =
     \<lparr>platform = ''quora'', url = ''https://www.quora.com/What-is-x'',
      metrics = [(''views'', JNum 12345), (''upvotes_quora'', JNum 0), (''shares'', JNum 0)],
      timestamp = ''2025-01-01T00:00:00.000Z'', success = True, error = None\<rparr>"
proof -
  let ?w = "world_with (serper_payload (JStr ''12,345 views''))"
  let ?resp = "\<lparr>ok = True, statusText = ''OK'', json = Inr (serper_payload (JStr ''12,345 views''))\<rparr>"
  have f: "\<forall>req. fetch ?w req = Responds ?resp"
    by (simp add: world_with_def)
  have o: "ok ?resp"
    by simp
  have j: "json ?resp = Inr (JObj [(''organic'', JArr [JObj [(''snippet'', JStr ''12,345 views'')]])])"
    by (simp add: serper_payload_def)
  have k: "map_of [(''organic'', JArr [JObj [(''snippet'', JStr ''12,345 views'')]])] ''organic''
             = Some (JArr (JObj [(''snippet'', JStr ''12,345 views'')] # []))"
    by simp
  have s: "map_of [(''snippet'', JStr ''12,345 views'')] ''snippet'' = Some (JStr ''12,345 views'')
           \<or> (map_of [(''snippet'', JStr ''12,345 views'')] ''snippet'' = None \<and> ''12,345 views'' = [])"
    by simp
  have v: "extracted ''view'' CHR ''s'' ''12,345 views'' = 12345"
    and p: "extracted ''upvote'' CHR ''s'' ''12,345 views'' = 0"
    by (simp_all add: extracted_def counter_rx_def Plus_def rx_run.simps is_digit_def is_space_def
          upper_ascii_def strip_commas_def dec_value_def digit_val_def)
  have now: "now ?w = ''2025-01-01T00:00:00.000Z''"
    by (simp add: world_with_def)
  from quora_counters [OF f o j k s, of "''https://www.quora.com/What-is-x''", THEN conjunct1]
  show ?thesis unfolding v p now by (simp add: js_number_small)
qed

text \<open>Beyond \<open>2^53\<close> the record holds the nearest double, not the digits of the snippet.\<close>

lemma quora_views_rounded:
  "map_of (metrics (fst (getQuoraMetrics
       (world_with (serper_payload (JStr ''9007199254740993 views'')))
       ''https://www.quora.com/What-is-x''))) ''views'' = Some (JNum 9007199254740992)"
proof -
  have e: "extracted ''view'' CHR ''s'' ''9007199254740993 views'' = 9007199254740993"
    by (simp add: extracted_def counter_rx_def Plus_def rx_run.simps is_digit_def is_space_def
          upper_ascii_def strip_commas_def dec_value_def digit_val_def)
  show ?thesis
    by (simp add: getQuoraMetrics_def getQuoraMetrics_try_def caught_def Let_def array_index_0
          world_with_def serper_payload_def or_else_def counter_extracted e js_number_rounds
          del: rx_match.simps)
qed

text \<open>
  The claim as stated fails twice.  The number of upvotes is stored under the key
  \<open>upvotes_quora\<close>: the record has no key \<open>upvotes\<close>.  And an organic result whose
  snippet is not a text (here the number 5) makes \<open>snippet.match\<close> throw, so the
  record is a failure.
\<close>

theorem quora_counters_counterexample:
  "success (fst (getQuoraMetrics (world_with (serper_payload (JStr ''12,345 views 678 upvotes'')))
              ''https://www.quora.com/What-is-x''))
   \<and> map_of (metrics (fst (getQuoraMetrics
         (world_with (serper_payload (JStr ''12,345 views 678 upvotes'')))
         ''https://www.quora.com/What-is-x''))) ''upvotes'' = None
   \<and> map_of (metrics (fst (getQuoraMetrics
         (world_with (serper_payload (JStr ''12,345 views 678 upvotes'')))
         ''https://www.quora.com/What-is-x''))) ''upvotes_quora'' = Some (JNum 678)
   \<and> fst (getQuoraMetrics (world_with (serper_payload (JNum 5))) ''https://www.quora.com/What-is-x'') =
       \<lparr>platform = ''quora'', url = ''https://www.quora.com/What-is-x'', metrics = [],
        timestamp = ''2025-01-01T00:00:00.000Z'', success = False,
        error = Some ''snippet.match is not a function''\<rparr>"
proof -
  have a: "fst (getQuoraMetrics (world_with (serper_payload (JStr ''12,345 views 678 upvotes'')))
              ''https://www.quora.com/What-is-x'') =
     \<lparr>platform = ''quora'', url = ''https://www.quora.com/What-is-x'',
      metrics = [(''views'', JNum 12345), (''upvotes_quora'', JNum 678), (''shares'', JNum 0)],
      timestamp = ''2025-01-01T00:00:00.000Z'', success = True, error = None\<rparr>"
    by (simp add: getQuoraMetrics_def getQuoraMetrics_try_def caught_def Let_def array_index_0
          world_with_def serper_payload_def or_else_def counter_def counter_rx_def Plus_def
          rx_run.simps is_digit_def is_space_def upper_ascii_def strip_commas_def
          parseInt_def js_number_def double_of_nat_def dec_value_def digit_val_def)
  have b: "fst (getQuoraMetrics (world_with (serper_payload (JNum 5))) ''https://www.quora.com/What-is-x'') =
       \<lparr>platform = ''quora'', url = ''https://www.quora.com/What-is-x'', metrics = [],
        timestamp = ''2025-01-01T00:00:00.000Z'', success = False,
        error = Some ''snippet.match is not a function''\<rparr>"
    by (simp add: getQuoraMetrics_def getQuoraMetrics_try_def caught_def Let_def array_index_0
          world_with_def serper_payload_def or_else_def failure_def error_message_def)
  show ?thesis unfolding a b by simp
qed

section \<open>Properties of the monitor registry\<close>

lemma Map_get_Map_set: "Map_get (Map_set k v m) k' = (if k' = k then Some v else Map_get m k')"
  by (induction m) (auto simp: Map_get_def)

lemma Map_get_Map_delete: "Map_get (Map_delete k m) k' = (if k' = k then None else Map_get m k')"
  by (induction m) (auto simp: Map_get_def Map_delete_def)

lemma fst_set_Map_set: "fst ` set (Map_set k v m) = insert k (fst ` set m)"
  by (induction m) auto

lemma distinct_Map_set: "distinct (map fst m) \<Longrightarrow> distinct (map fst (Map_set k v m))"
  by (induction m) (auto simp: fst_set_Map_set)

lemma distinct_Map_delete: "distinct (map fst m) \<Longrightarrow> distinct (map fst (Map_delete k m))"
  by (simp add: Map_delete_def distinct_map_filter)

lemma Map_delete_absent: "Map_get m k = None \<Longrightarrow> Map_delete k m = m"
  by (induction m) (auto simp: Map_get_def Map_delete_def split: if_splits)

lemma timers_fold_clearInterval:
  "timers (fold clearInterval hs s) h = (if h \<in> set hs then None else timers s h)"
  by (induction hs arbitrary: s) (auto simp: clearInterval_def)

lemma fold_clearInterval_other:
  "intervals (fold clearInterval hs s) = intervals s"
  "next_handle (fold clearInterval hs s) = next_handle s"
  "pending (fold clearInterval hs s) = pending s"
  "delivered (fold clearInterval hs s) = delivered s"
  by (induction hs arbitrary: s) (auto simp: clearInterval_def)

lemma registry_ok_new: "registry_ok new_MetricsMonitor"
  by (simp add: registry_ok_def new_MetricsMonitor_def Map_get_def)

lemma registry_ok_stop:
  assumes "registry_ok s"
  shows "registry_ok (stopMonitoring u s)"
proof (cases "Map_get (intervals s) u")
  case None
  with assms show ?thesis by (simp add: stopMonitoring_def)
next
  case (Some h)
  from assms have d: "distinct (map fst (intervals s))"
    and live: "\<And>v h'. Map_get (intervals s) v = Some h' \<Longrightarrow> \<exists>t. timers s h' = Some t \<and> timer_url t = v"
    and reg: "\<And>h' t. timers s h' = Some t \<Longrightarrow> Map_get (intervals s) (timer_url t) = Some h'"
    and fresh: "\<And>h'. next_handle s \<le> h' \<Longrightarrow> timers s h' = None"
    unfolding registry_ok_def by blast+
  let ?s = "stopMonitoring u s"
  have s': "intervals ?s = Map_delete u (intervals s)" "timers ?s = (timers s)(h := None)"
    "next_handle ?s = next_handle s"
    using Some by (simp_all add: stopMonitoring_def clearInterval_def)
  have 1: "distinct (map fst (intervals ?s))"
    using d by (simp add: s' distinct_Map_delete)
  have 2: "\<exists>t. timers ?s h' = Some t \<and> timer_url t = v" if "Map_get (intervals ?s) v = Some h'" for v h'
  proof -
    from that have v: "v \<noteq> u" and g: "Map_get (intervals s) v = Some h'"
      by (auto simp: s' Map_get_Map_delete split: if_splits)
    from live [OF g] obtain t where t: "timers s h' = Some t" "timer_url t = v" by blast
    from live [OF Some] obtain t' where t': "timers s h = Some t'" "timer_url t' = u" by blast
    from t t' v have "h' \<noteq> h" by auto
    with t show ?thesis by (simp add: s')
  qed
  have 3: "Map_get (intervals ?s) (timer_url t) = Some h'" if "timers ?s h' = Some t" for h' t
  proof -
    from that have h: "h' \<noteq> h" and t: "timers s h' = Some t"
      by (auto simp: s' split: if_splits)
    from reg [OF t] have g: "Map_get (intervals s) (timer_url t) = Some h'" .
    with Some h have "timer_url t \<noteq> u" by auto
    with g show ?thesis by (simp add: s' Map_get_Map_delete)
  qed
  have 4: "timers ?s h' = None" if "next_handle ?s \<le> h'" for h'
    using that fresh by (simp add: s')
  from 1 2 3 4 show ?thesis unfolding registry_ok_def by blast
qed

lemma stopMonitoring_forgets: "Map_get (intervals (stopMonitoring u s)) u = None"
  by (cases "Map_get (intervals s) u") (simp_all add: stopMonitoring_def Map_get_Map_delete)

lemma startMonitoring_fields:
  "intervals (startMonitoring u intervalMs callback s) =
     Map_set u (next_handle (stopMonitoring u s)) (intervals (stopMonitoring u s))"
  "timers (startMonitoring u intervalMs callback s) =
     (timers (stopMonitoring u s))(next_handle (stopMonitoring u s) \<mapsto>
        \<lparr>timer_url = u, timer_delay = timeout_after (case intervalMs of None \<Rightarrow> 300000 | Some n \<Rightarrow> n),
         timer_callback = callback\<rparr>)"
  "next_handle (startMonitoring u intervalMs callback s) = Suc (next_handle (stopMonitoring u s))"
  "pending (startMonitoring u intervalMs callback s) = pending (stopMonitoring u s) @ [(u, callback)]"
  "delivered (startMonitoring u intervalMs callback s) = delivered (stopMonitoring u s)"
  by (simp_all add: startMonitoring_def setInterval_def start_fetch_def Let_def)

lemma stopMonitoring_queue:
  "pending (stopMonitoring u s) = pending s" "delivered (stopMonitoring u s) = delivered s"
  "next_handle (stopMonitoring u s) = next_handle s"
  by (cases "Map_get (intervals s) u"; simp add: stopMonitoring_def clearInterval_def)+

lemma registry_ok_start:
  assumes "registry_ok s"
  shows "registry_ok (startMonitoring u intervalMs callback s)"
proof -
  let ?s1 = "stopMonitoring u s"
  let ?s = "startMonitoring u intervalMs callback s"
  let ?h = "next_handle ?s1"
  from registry_ok_stop [OF assms] have ok1: "registry_ok ?s1" .
  then have d: "distinct (map fst (intervals ?s1))"
    and live: "\<And>v h'. Map_get (intervals ?s1) v = Some h' \<Longrightarrow> \<exists>t. timers ?s1 h' = Some t \<and> timer_url t = v"
    and reg: "\<And>h' t. timers ?s1 h' = Some t \<Longrightarrow> Map_get (intervals ?s1) (timer_url t) = Some h'"
    and fresh: "\<And>h'. ?h \<le> h' \<Longrightarrow> timers ?s1 h' = None"
    unfolding registry_ok_def by blast+
  note f = startMonitoring_fields [of u intervalMs callback s]
  have none: "Map_get (intervals ?s1) u = None" by (rule stopMonitoring_forgets)
  have 1: "distinct (map fst (intervals ?s))"
    using d by (simp add: f distinct_Map_set)
  have 2: "\<exists>t. timers ?s h' = Some t \<and> timer_url t = v" if "Map_get (intervals ?s) v = Some h'" for v h'
  proof (cases "v = u")
    case True
    with that show ?thesis by (simp add: f Map_get_Map_set)
  next
    case False
    with that have g: "Map_get (intervals ?s1) v = Some h'" by (simp add: f Map_get_Map_set)
    from live [OF g] obtain t where t: "timers ?s1 h' = Some t" "timer_url t = v" by blast
    with fresh [of h'] have "h' \<noteq> ?h" by auto
    with t show ?thesis by (simp add: f)
  qed
  have 3: "Map_get (intervals ?s) (timer_url t) = Some h'" if "timers ?s h' = Some t" for h' t
  proof (cases "h' = ?h")
    case True
    with that show ?thesis by (auto simp: f Map_get_Map_set)
  next
    case False
    with that have t: "timers ?s1 h' = Some t" by (simp add: f)
    from reg [OF t] have g: "Map_get (intervals ?s1) (timer_url t) = Some h'" .
    with none have "timer_url t \<noteq> u" by auto
    with g show ?thesis by (simp add: f Map_get_Map_set)
  qed
  have 4: "timers ?s h' = None" if "next_handle ?s \<le> h'" for h'
    using that fresh [of h'] by (simp add: f)
  from 1 2 3 4 show ?thesis unfolding registry_ok_def by blast
qed

lemma registry_ok_stopAll:
  assumes "registry_ok s"
  shows "registry_ok (stopAllMonitoring s)"
proof -
  from assms have reg: "\<And>h t. timers s h = Some t \<Longrightarrow> Map_get (intervals s) (timer_url t) = Some h"
    unfolding registry_ok_def by blast
  have "timers (stopAllMonitoring s) h = None" for h
  proof (cases "timers s h")
    case None
    then show ?thesis
      by (simp add: stopAllMonitoring_def timers_fold_clearInterval)
  next
    case (Some t)
    from reg [OF Some] have "(timer_url t, h) \<in> set (intervals s)"
      by (simp add: Map_get_def map_of_SomeD)
    then have "h \<in> set (Map_values (intervals s))"
      by (force simp: Map_values_def)
    then show ?thesis
      by (simp add: stopAllMonitoring_def timers_fold_clearInterval)
  qed
  then show ?thesis
    by (simp add: registry_ok_def stopAllMonitoring_def Map_get_def)
qed

lemma registry_ok_tick: "registry_ok s \<Longrightarrow> registry_ok (tick h s)"
  by (cases "timers s h") (simp_all add: tick_def start_fetch_def registry_ok_def)

lemma registry_ok_settle: "registry_ok s \<Longrightarrow> registry_ok (settle w i s)"
  by (simp add: settle_def registry_ok_def)

lemma reachable_registry_ok: "reachable s \<Longrightarrow> registry_ok s"
  by (induction rule: reachable.induct)
     (simp_all add: registry_ok_new registry_ok_start registry_ok_stop registry_ok_stopAll
        registry_ok_tick registry_ok_settle)

lemma fst_set_Map_delete: "fst ` set (Map_delete k m) = fst ` set m - {k}"
  by (auto simp: Map_delete_def)

lemma one_entry:
  "distinct (map fst m) \<Longrightarrow> Map_get m k = Some v \<Longrightarrow> length (filter (\<lambda>p. fst p = k) m) = 1"
proof (induction m)
  case Nil
  then show ?case by (simp add: Map_get_def)
next
  case (Cons p ps)
  show ?case
  proof (cases "fst p = k")
    case True
    with Cons.prems(1) have "k \<notin> fst ` set ps" by auto
    then have "filter (\<lambda>p. fst p = k) ps = []" by (auto simp: filter_empty_conv)
    with True show ?thesis by simp
  next
    case False
    with Cons show ?thesis by (simp add: Map_get_def)
  qed
qed

text \<open>
  Claim C7, as the code and its runtime have it.  In any state of the registry,
  after \<open>startMonitoring\<close> the map holds one entry for the URL, its handle is a live
  timer with the URL and the callback, and no other live timer has that URL.  The
  timer runs at the interval given when that lies between 1 and 2147483647 ms, at
  300000 ms when none is given, and at 1 ms for any other interval.  One fetch of the
  URL with the callback has been started at once, and when it settles the callback is
  called with the dispatcher's record for the URL.
\<close>

theorem startMonitoring_one_timer:
  assumes "reachable s"
  shows "(\<exists>h. Map_get (intervals (startMonitoring u intervalMs callback s)) u = Some h \<and>
            timers (startMonitoring u intervalMs callback s) h =
              Some \<lparr>timer_url = u,
                    timer_delay = timeout_after (case intervalMs of None \<Rightarrow> 300000 | Some n \<Rightarrow> n),
                    timer_callback = callback\<rparr> \<and>
            {h'. \<exists>t. timers (startMonitoring u intervalMs callback s) h' = Some t \<and> timer_url t = u}
              = {h})
       \<and> length (filter (\<lambda>p. fst p = u) (intervals (startMonitoring u intervalMs callback s))) = 1
       \<and> pending (startMonitoring u intervalMs callback s) = pending s @ [(u, callback)]
       \<and> delivered (settle w (length (pending s)) (startMonitoring u intervalMs callback s))
           = delivered s @ [(callback, fst (getSocialMetrics w u))]
       \<and> startMonitoring u None callback s = startMonitoring u (Some 300000) callback s
       \<and> (\<forall>h n. Map_get (intervals (startMonitoring u intervalMs callback s)) u = Some h \<and>
              intervalMs = Some n \<and> 1 \<le> n \<and> n \<le> 2147483647 \<longrightarrow>
              map_option timer_delay (timers (startMonitoring u intervalMs callback s) h) = Some n)
       \<and> (\<forall>h. Map_get (intervals (startMonitoring u intervalMs callback s)) u = Some h \<and>
              intervalMs = None \<longrightarrow>
              map_option timer_delay (timers (startMonitoring u intervalMs callback s) h)
                = Some 300000)"
proof -
  let ?s = "startMonitoring u intervalMs callback s"
  let ?h = "next_handle (stopMonitoring u s)"
  let ?t = "\<lparr>timer_url = u, timer_delay = timeout_after (case intervalMs of None \<Rightarrow> 300000 | Some n \<Rightarrow> n),
             timer_callback = callback\<rparr>"
  note f = startMonitoring_fields [of u intervalMs callback s]
  from assms have "reachable ?s" by (rule reachable.start)
  then have ok: "registry_ok ?s" by (rule reachable_registry_ok)
  have g: "Map_get (intervals ?s) u = Some ?h"
    by (simp add: f Map_get_Map_set)
  have t: "timers ?s ?h = Some ?t"
    by (simp add: f)
  have only: "{h'. \<exists>t. timers ?s h' = Some t \<and> timer_url t = u} = {?h}"
  proof (intro equalityI subsetI)
    fix h' assume "h' \<in> {h'. \<exists>t. timers ?s h' = Some t \<and> timer_url t = u}"
    then obtain t' where "timers ?s h' = Some t'" "timer_url t' = u" by blast
    with ok have "Map_get (intervals ?s) u = Some h'"
      unfolding registry_ok_def by blast
    with g show "h' \<in> {?h}" by simp
  next
    fix h' assume "h' \<in> {?h}"
    with t show "h' \<in> {h'. \<exists>t. timers ?s h' = Some t \<and> timer_url t = u}" by simp
  qed
  from ok have d: "distinct (map fst (intervals ?s))"
    unfolding registry_ok_def by blast
  from one_entry [OF d g] have one: "length (filter (\<lambda>p. fst p = u) (intervals ?s)) = 1" .
  have p: "pending ?s = pending s @ [(u, callback)]"
    by (simp add: f stopMonitoring_queue)
  have dl: "delivered (settle w (length (pending s)) ?s) = delivered s @ [(callback, fst (getSocialMetrics w u))]"
    by (simp add: settle_def p f stopMonitoring_queue)
  have dflt: "startMonitoring u None callback s = startMonitoring u (Some 300000) callback s"
    by (simp add: startMonitoring_def)
  have inr: "map_option timer_delay (timers ?s h) = Some n"
    if "Map_get (intervals ?s) u = Some h \<and> intervalMs = Some n \<and> 1 \<le> n \<and> n \<le> 2147483647"
    for h n
    using that g t by (auto simp: timeout_after_def)
  have dfl: "map_option timer_delay (timers ?s h) = Some 300000"
    if "Map_get (intervals ?s) u = Some h \<and> intervalMs = None" for h
    using that g t by (auto simp: timeout_after_def)
  from g t only have ex: "\<exists>h. Map_get (intervals ?s) u = Some h \<and> timers ?s h = Some ?t \<and>
      {h'. \<exists>t. timers ?s h' = Some t \<and> timer_url t = u} = {h}"
    by blast
  from inr have inr': "\<forall>h n. Map_get (intervals ?s) u = Some h \<and> intervalMs = Some n \<and>
      1 \<le> n \<and> n \<le> 2147483647 \<longrightarrow> map_option timer_delay (timers ?s h) = Some n"
    by blast
  from dfl have dfl': "\<forall>h. Map_get (intervals ?s) u = Some h \<and> intervalMs = None \<longrightarrow>
      map_option timer_delay (timers ?s h) = Some 300000"
    by blast
  show ?thesis
    by (intro conjI) (rule ex one p dl dflt inr' dfl')+
qed

theorem startMonitoring_one_timer_witness:
  "Map_get (intervals (startMonitoring ''https://x.com/a/status/1'' (Some 5000) (2::nat)
       (startMonitoring ''https://x.com/a/status/1'' (Some 1000) 1 new_MetricsMonitor)))
     ''https://x.com/a/status/1'' = Some 1
   \<and> {h'. \<exists>t. timers (startMonitoring ''https://x.com/a/status/1'' (Some 5000) (2::nat)
            (startMonitoring ''https://x.com/a/status/1'' (Some 1000) 1 new_MetricsMonitor)) h' = Some t
          \<and> timer_url t = ''https://x.com/a/status/1''} = {1}
   \<and> timers (startMonitoring ''https://x.com/a/status/1'' (Some 5000) (2::nat)
            (startMonitoring ''https://x.com/a/status/1'' (Some 1000) 1 new_MetricsMonitor)) 1
       = Some \<lparr>timer_url = ''https://x.com/a/status/1'', timer_delay = 5000, timer_callback = 2\<rparr>"
proof -
  let ?u = "''https://x.com/a/status/1''"
  let ?init = "startMonitoring ?u (Some 1000) (1::nat) new_MetricsMonitor"
  let ?s = "startMonitoring ?u (Some 5000) (2::nat) ?init"
  have r: "reachable ?init"
    by (intro reachable.start reachable.new)
  have g: "Map_get (intervals ?s) ?u = Some 1"
    by (simp add: startMonitoring_def stopMonitoring_def setInterval_def start_fetch_def
          clearInterval_def new_MetricsMonitor_def Map_get_def Map_delete_def Let_def)
  from startMonitoring_one_timer [where u = ?u and intervalMs = "Some 5000" and callback = 2
      and w = world_down, OF r, THEN conjunct1]
  obtain h where h: "Map_get (intervals ?s) ?u = Some h"
    and t: "timers ?s h = Some \<lparr>timer_url = ?u,
              timer_delay = timeout_after (case Some 5000 of None \<Rightarrow> 300000 | Some n \<Rightarrow> n),
              timer_callback = 2\<rparr>"
    and only: "{h'. \<exists>t. timers ?s h' = Some t \<and> timer_url t = ?u} = {h}"
    by blast
  from g h have "h = 1" by simp
  with g t only show ?thesis by (simp add: timeout_after_def)
qed

text \<open>
  The claim as stated fails for an interval that the runtime does not take: asked for
  2147483648 ms, or for 0 ms, the timer of the URL runs every millisecond.
\<close>

theorem startMonitoring_one_timer_counterexample:
  "timers (startMonitoring ''https://x.com/a/status/1'' (Some 2147483648) (1::nat)
             new_MetricsMonitor) 0
     = Some \<lparr>timer_url = ''https://x.com/a/status/1'', timer_delay = 1, timer_callback = 1\<rparr>
   \<and> timers (startMonitoring ''https://x.com/a/status/1'' (Some 0) (1::nat)
             new_MetricsMonitor) 0
     = Some \<lparr>timer_url = ''https://x.com/a/status/1'', timer_delay = 1, timer_callback = 1\<rparr>"
  by (simp add: startMonitoring_def stopMonitoring_def setInterval_def start_fetch_def
        timeout_after_def new_MetricsMonitor_def Map_get_def Let_def)

text \<open>
  Claim C9.  \<open>stopMonitoring\<close> on a URL without an entry returns the registry as it
  is; on a URL with an entry it cancels the timer of that handle and removes the
  entry.
\<close>

theorem stopMonitoring_absent_noop:
  "(Map_get (intervals s) u = None \<longrightarrow> stopMonitoring u s = s)
   \<and> (\<forall>h. Map_get (intervals s) u = Some h \<longrightarrow>
         timers (stopMonitoring u s) h = None \<and>
         Map_get (intervals (stopMonitoring u s)) u = None \<and>
         u \<notin> fst ` set (intervals (stopMonitoring u s)))"
  by (auto simp: stopMonitoring_def clearInterval_def Map_get_Map_delete fst_set_Map_delete)

theorem stopMonitoring_absent_noop_witness:
  "stopMonitoring ''https://x.com/a/status/1'' (new_MetricsMonitor :: nat MetricsMonitor)
     = new_MetricsMonitor
   \<and> timers (stopMonitoring ''https://x.com/a/status/1''
        (startMonitoring ''https://x.com/a/status/1'' None (1::nat) new_MetricsMonitor)) 0 = None
   \<and> intervals (stopMonitoring ''https://x.com/a/status/1''
        (startMonitoring ''https://x.com/a/status/1'' None (1::nat) new_MetricsMonitor)) = []"
proof -
  let ?u = "''https://x.com/a/status/1''"
  let ?s = "startMonitoring ?u None (1::nat) new_MetricsMonitor"
  have a: "Map_get (intervals (new_MetricsMonitor :: nat MetricsMonitor)) ?u = None"
    by (simp add: new_MetricsMonitor_def Map_get_def)
  have b: "Map_get (intervals ?s) ?u = Some 0"
    by (simp add: startMonitoring_def stopMonitoring_def setInterval_def start_fetch_def
          new_MetricsMonitor_def Map_get_def Let_def)
  have c: "intervals ?s = [(?u, 0)]"
    by (simp add: startMonitoring_def stopMonitoring_def setInterval_def start_fetch_def
          new_MetricsMonitor_def Map_get_def Let_def)
  from stopMonitoring_absent_noop [of "new_MetricsMonitor :: nat MetricsMonitor" ?u] a
  have 1: "stopMonitoring ?u (new_MetricsMonitor :: nat MetricsMonitor) = new_MetricsMonitor"
    by blast
  from stopMonitoring_absent_noop [of ?s ?u] b
  have 2: "timers (stopMonitoring ?u ?s) 0 = None"
    and 3: "?u \<notin> fst ` set (intervals (stopMonitoring ?u ?s))"
    by blast+
  have "intervals (stopMonitoring ?u ?s) = Map_delete ?u (intervals ?s)"
    using b by (simp add: stopMonitoring_def clearInterval_def)
  with c have 4: "intervals (stopMonitoring ?u ?s) = []"
    by (simp add: Map_delete_def)
  from 1 2 4 show ?thesis by simp
qed

text \<open>
  Claim C10.  \<open>stopMonitoring\<close> of one URL leaves the entry of every other URL as it
  was, and in a reachable registry the timer of that entry stays as it was.
\<close>

theorem stopMonitoring_frame:
  assumes "u \<noteq> v"
  shows "Map_get (intervals (stopMonitoring u s)) v = Map_get (intervals s) v
       \<and> filter (\<lambda>p. fst p = v) (intervals (stopMonitoring u s)) = filter (\<lambda>p. fst p = v) (intervals s)
       \<and> (reachable s \<longrightarrow>
            (\<forall>h. Map_get (intervals s) v = Some h \<longrightarrow> timers (stopMonitoring u s) h = timers s h))"
proof (intro conjI impI allI)
  show "Map_get (intervals (stopMonitoring u s)) v = Map_get (intervals s) v"
    using assms by (cases "Map_get (intervals s) u") (simp_all add: stopMonitoring_def Map_get_Map_delete)
next
  have "filter (\<lambda>p. fst p = v) (Map_delete u m) = filter (\<lambda>p. fst p = v) m" for m :: "(string, nat) js_map"
    using assms by (induction m) (auto simp: Map_delete_def)
  then show "filter (\<lambda>p. fst p = v) (intervals (stopMonitoring u s)) = filter (\<lambda>p. fst p = v) (intervals s)"
    by (cases "Map_get (intervals s) u") (simp_all add: stopMonitoring_def)
next
  fix h
  assume r: "reachable s" and v: "Map_get (intervals s) v = Some h"
  show "timers (stopMonitoring u s) h = timers s h"
  proof (cases "Map_get (intervals s) u")
    case None
    then show ?thesis by (simp add: stopMonitoring_def)
  next
    case (Some hu)
    from reachable_registry_ok [OF r]
    have live: "\<And>x k. Map_get (intervals s) x = Some k \<Longrightarrow> \<exists>t. timers s k = Some t \<and> timer_url t = x"
      unfolding registry_ok_def by blast
    from live [OF v] live [OF Some] assms have "h \<noteq> hu" by auto
    with Some show ?thesis by (simp add: stopMonitoring_def clearInterval_def)
  qed
qed

theorem stopMonitoring_frame_witness:
  "Map_get (intervals (stopMonitoring ''https://x.com/a/status/1''
      (startMonitoring ''https://x.com/b/status/2'' (Some 60000) (2::nat)
        (startMonitoring ''https://x.com/a/status/1'' None 1 new_MetricsMonitor))))
     ''https://x.com/b/status/2'' = Some 1
   \<and> timers (stopMonitoring ''https://x.com/a/status/1''
      (startMonitoring ''https://x.com/b/status/2'' (Some 60000) (2::nat)
        (startMonitoring ''https://x.com/a/status/1'' None 1 new_MetricsMonitor))) 1
     = Some \<lparr>timer_url = ''https://x.com/b/status/2'', timer_delay = 60000, timer_callback = 2\<rparr>"
proof -
  let ?u = "''https://x.com/a/status/1''"
  let ?v = "''https://x.com/b/status/2''"
  let ?s = "startMonitoring ?v (Some 60000) (2::nat) (startMonitoring ?u None 1 new_MetricsMonitor)"
  have r: "reachable ?s"
    by (intro reachable.start reachable.new)
  have ne: "?u \<noteq> ?v" by simp
  have g: "Map_get (intervals ?s) ?v = Some 1"
    by (simp add: startMonitoring_def stopMonitoring_def setInterval_def start_fetch_def
          new_MetricsMonitor_def Map_get_def Let_def)
  have t: "timers ?s 1 = Some \<lparr>timer_url = ?v, timer_delay = 60000, timer_callback = 2\<rparr>"
    by (simp add: startMonitoring_def stopMonitoring_def setInterval_def start_fetch_def timeout_after_def
          new_MetricsMonitor_def Map_get_def Let_def)
  from stopMonitoring_frame [OF ne, of ?s] r g
  have "Map_get (intervals (stopMonitoring ?u ?s)) ?v = Some 1"
    and "timers (stopMonitoring ?u ?s) 1 = timers ?s 1"
    by auto
  with t show ?thesis by simp
qed

section \<open>Properties of the metrics store\<close>

lemma insert_cmp_newest_first:
  "insert_cmp newest_first x ys = insort_key (\<lambda>m. - sm_createdAt m) x ys"
  by (induction ys) (simp_all add: newest_first_def)

lemma js_sort_newest_first: "js_sort newest_first xs = sort_key (\<lambda>m. - sm_createdAt m) xs"
  by (induction xs) (simp_all add: js_sort_def insert_cmp_newest_first)

lemma sorted_js_sort:
  "sorted_wrt (\<lambda>a b. sm_createdAt b \<le> sm_createdAt a) (js_sort newest_first xs)"
proof -
  have "sorted (map (\<lambda>m. - sm_createdAt m) (sort_key (\<lambda>m. - sm_createdAt m) xs))"
    by (rule sorted_sort_key)
  then show ?thesis
    by (simp add: js_sort_newest_first sorted_map)
qed

lemma mset_js_sort: "mset (js_sort newest_first xs) = mset xs"
  by (simp add: js_sort_newest_first)

lemma stable_js_sort:
  "filter (\<lambda>m. sm_createdAt m = k) (js_sort newest_first xs) = filter (\<lambda>m. sm_createdAt m = k) xs"
  using sort_key_stable [of "\<lambda>m. - sm_createdAt m" "- k" xs]
  by (simp add: js_sort_newest_first)

lemma selected:
  "(if given p then filter (\<lambda>m. Some (sm_platform m) = p)
      (if given u then filter (\<lambda>m. Some (sm_url m) = u) xs else xs)
    else (if given u then filter (\<lambda>m. Some (sm_url m) = u) xs else xs))
   = filter (\<lambda>m. wanted u (sm_url m) \<and> wanted p (sm_platform m)) xs"
  by (cases u; cases p) (auto simp: given_def wanted_def intro: filter_cong)

lemma getSocialMetrics_sort:
  "MemStorage_getSocialMetrics st u p =
     js_sort newest_first
       (filter (\<lambda>m. wanted u (sm_url m) \<and> wanted p (sm_platform m)) (Map_values (socialMetrics st)))"
  unfolding MemStorage_getSocialMetrics_def Let_def selected ..

lemma head_is_newest:
  assumes "sorted_wrt (\<lambda>a b. sm_createdAt b \<le> sm_createdAt a) (m # ms)" "m' \<in> set (m # ms)"
  shows "sm_createdAt m' \<le> sm_createdAt m"
  using assms by auto

lemma Map_set_fresh: "k \<notin> fst ` set m \<Longrightarrow> Map_set k v m = m @ [(k, v)]"
  by (induction m) auto

lemma createSocialMetric_appends:
  assumes "store_ok st"
  shows "Map_values (socialMetrics (snd (createSocialMetric at i st)))
           = Map_values (socialMetrics st) @ [fst (createSocialMetric at i st)]"
    and "store_ok (snd (createSocialMetric at i st))"
    and "currentMetricId (snd (createSocialMetric at i st)) = currentMetricId st + 1"
proof -
  from assms have fresh: "currentMetricId st \<notin> fst ` set (socialMetrics st)"
    by (auto simp: store_ok_def list_all_iff)
  then show "Map_values (socialMetrics (snd (createSocialMetric at i st)))
           = Map_values (socialMetrics st) @ [fst (createSocialMetric at i st)]"
    by (simp add: createSocialMetric_def Let_def Map_set_fresh Map_values_def)
  from assms fresh show "store_ok (snd (createSocialMetric at i st))"
    by (auto simp: createSocialMetric_def Let_def Map_set_fresh store_ok_def list_all_iff)
  show "currentMetricId (snd (createSocialMetric at i st)) = currentMetricId st + 1"
    by (simp add: createSocialMetric_def Let_def)
qed

lemma createSocialMetric_row:
  "sm_url (fst (createSocialMetric at i st)) = ins_url i"
  "sm_platform (fst (createSocialMetric at i st)) = ins_platform i"
  "sm_createdAt (fst (createSocialMetric at i st)) = at"
  "sm_id (fst (createSocialMetric at i st)) = currentMetricId st"
  "sm_rest (fst (createSocialMetric at i st)) = ins_rest i"
  by (simp_all add: createSocialMetric_def Let_def)

lemma newest_is_head:
  assumes "x \<in> set xs" and "\<forall>y\<in>set xs. y = x \<or> sm_createdAt y < sm_createdAt x"
  shows "\<exists>ms. js_sort newest_first xs = x # ms"
proof (cases "js_sort newest_first xs")
  case Nil
  then have "mset xs = {#}" using mset_js_sort [of xs] by simp
  with assms(1) show ?thesis by simp
next
  case (Cons m ms)
  have "set (js_sort newest_first xs) = set xs"
    using mset_js_sort [of xs] by (metis set_mset_mset)
  with Cons have m: "m \<in> set xs" and x: "x \<in> set (m # ms)" using assms(1) by auto
  from sorted_js_sort [of xs] Cons have "sorted_wrt (\<lambda>a b. sm_createdAt b \<le> sm_createdAt a) (m # ms)"
    by simp
  from head_is_newest [OF this x] have "sm_createdAt x \<le> sm_createdAt m" .
  with assms(2) m have "m = x" by force
  with Cons show ?thesis by simp
qed

lemma set_getSocialMetrics:
  "set (MemStorage_getSocialMetrics st u p) =
     {m \<in> set (Map_values (socialMetrics st)). wanted u (sm_url m) \<and> wanted p (sm_platform m)}"
proof -
  have "set (MemStorage_getSocialMetrics st u p) = set_mset (mset (MemStorage_getSocialMetrics st u p))"
    by simp
  also have "\<dots> = set (filter (\<lambda>m. wanted u (sm_url m) \<and> wanted p (sm_platform m))
                        (Map_values (socialMetrics st)))"
    unfolding getSocialMetrics_sort mset_js_sort by simp
  finally show ?thesis by simp
qed

lemma latest_after_three:
  assumes ok: "store_ok st"
    and t: "T1 < T2" "T2 < T3"
    and i: "ins_url i1 = u" "ins_url i2 = u" "ins_url i3 = u"
    and older: "\<forall>m\<in>set (MemStorage_getSocialMetrics st (Some u) None). sm_createdAt m < T3"
  shows "MemStorage_getLatestMetrics
           (snd (createSocialMetric T3 i3 (snd (createSocialMetric T2 i2
              (snd (createSocialMetric T1 i1 st)))))) u
         = Some (fst (createSocialMetric T3 i3 (snd (createSocialMetric T2 i2
              (snd (createSocialMetric T1 i1 st))))))"
proof -
  let ?st1 = "snd (createSocialMetric T1 i1 st)"
  let ?st2 = "snd (createSocialMetric T2 i2 ?st1)"
  let ?st3 = "snd (createSocialMetric T3 i3 ?st2)"
  let ?r1 = "fst (createSocialMetric T1 i1 st)"
  let ?r2 = "fst (createSocialMetric T2 i2 ?st1)"
  let ?r3 = "fst (createSocialMetric T3 i3 ?st2)"
  note a1 = createSocialMetric_appends [OF ok, of T1 i1]
  note a2 = createSocialMetric_appends [OF a1(2), of T2 i2]
  note a3 = createSocialMetric_appends [OF a2(2), of T3 i3]
  have vals: "Map_values (socialMetrics ?st3) = Map_values (socialMetrics st) @ [?r1, ?r2, ?r3]"
    by (simp add: a1(1) a2(1) a3(1))
  let ?sel = "filter (\<lambda>m. wanted (Some u) (sm_url m) \<and> wanted None (sm_platform m))
                (Map_values (socialMetrics ?st3))"
  have w: "wanted (Some u) u" "wanted None x" for x
    by (simp_all add: wanted_def)
  from older have old: "sm_createdAt m < T3"
    if "m \<in> set (Map_values (socialMetrics st))" "wanted (Some u) (sm_url m)" for m
    using that by (simp add: set_getSocialMetrics w)
  have "?r3 \<in> set ?sel"
    by (simp add: vals w createSocialMetric_row i)
  moreover have "\<forall>y\<in>set ?sel. y = ?r3 \<or> sm_createdAt y < sm_createdAt ?r3"
    using old t by (auto simp: vals w createSocialMetric_row)
  ultimately obtain ms where "js_sort newest_first ?sel = ?r3 # ms"
    using newest_is_head by blast
  then show ?thesis
    by (simp add: MemStorage_getLatestMetrics_def getSocialMetrics_sort)
qed

text \<open>
  Claim C6, as the code has it.  The time the store sorts by is the creation time
  it gives a row, not a time the inserted record carries.  The list query returns
  the stored rows that the filters ask for (a filter that is missing or empty asks
  for nothing, one that is given asks for equality), each as often as it is stored,
  by creation time with the newest first, and rows of one creation time in the order
  they were inserted.  The latest row of a URL is the first row of that list for the
  URL, none if the list is empty; when there is one, no row of the list was created
  later, and it is the first inserted of the rows created at its time.  And after
  three rows for a URL are created at clock readings \<open>T1 < T2 < T3\<close>, in a store where
  the rows listed for that URL were created before \<open>T3\<close>, the latest row of the URL is
  the one created at \<open>T3\<close>.
\<close>

theorem latest_is_newest:
  "mset (MemStorage_getSocialMetrics st uo po) =
     mset (filter (\<lambda>m. wanted uo (sm_url m) \<and> wanted po (sm_platform m))
             (Map_values (socialMetrics st)))
   \<and> sorted_wrt (\<lambda>a b. sm_createdAt b \<le> sm_createdAt a) (MemStorage_getSocialMetrics st uo po)
   \<and> filter (\<lambda>m. sm_createdAt m = k) (MemStorage_getSocialMetrics st uo po) =
       filter (\<lambda>m. sm_createdAt m = k)
         (filter (\<lambda>m. wanted uo (sm_url m) \<and> wanted po (sm_platform m))
            (Map_values (socialMetrics st)))
   \<and> MemStorage_getLatestMetrics st u =
       (case MemStorage_getSocialMetrics st (Some u) None of [] \<Rightarrow> None | m # ms \<Rightarrow> Some m)
   \<and> (\<forall>m. MemStorage_getLatestMetrics st u = Some m \<longrightarrow>
          m \<in> set (MemStorage_getSocialMetrics st (Some u) None) \<and>
          (\<forall>m'\<in>set (MemStorage_getSocialMetrics st (Some u) None).
             sm_createdAt m' \<le> sm_createdAt m) \<and>
          (\<exists>others. filter (\<lambda>x. sm_createdAt x = sm_createdAt m)
                       (filter (\<lambda>x. wanted (Some u) (sm_url x) \<and> wanted None (sm_platform x))
                          (Map_values (socialMetrics st))) = m # others))
   \<and> (store_ok st \<and> T1 < T2 \<and> T2 < T3 \<and>
      ins_url i1 = u \<and> ins_url i2 = u \<and> ins_url i3 = u \<and>
      (\<forall>m\<in>set (MemStorage_getSocialMetrics st (Some u) None). sm_createdAt m < T3) \<longrightarrow>
        MemStorage_getLatestMetrics
          (snd (createSocialMetric T3 i3 (snd (createSocialMetric T2 i2
             (snd (createSocialMetric T1 i1 st)))))) u
        = Some \<lparr>sm_id = currentMetricId st + 2, sm_url = u, sm_platform = ins_platform i3,
                sm_createdAt = T3, sm_rest = ins_rest i3\<rparr>)"
proof (intro conjI allI impI)
  show "mset (MemStorage_getSocialMetrics st uo po) =
     mset (filter (\<lambda>m. wanted uo (sm_url m) \<and> wanted po (sm_platform m))
             (Map_values (socialMetrics st)))"
    by (simp add: getSocialMetrics_sort mset_js_sort)
next
  show "sorted_wrt (\<lambda>a b. sm_createdAt b \<le> sm_createdAt a) (MemStorage_getSocialMetrics st uo po)"
    by (simp add: getSocialMetrics_sort sorted_js_sort)
next
  show "filter (\<lambda>m. sm_createdAt m = k) (MemStorage_getSocialMetrics st uo po) =
       filter (\<lambda>m. sm_createdAt m = k)
         (filter (\<lambda>m. wanted uo (sm_url m) \<and> wanted po (sm_platform m))
            (Map_values (socialMetrics st)))"
    unfolding getSocialMetrics_sort by (rule stable_js_sort)
next
  show "MemStorage_getLatestMetrics st u =
       (case MemStorage_getSocialMetrics st (Some u) None of [] \<Rightarrow> None | m # ms \<Rightarrow> Some m)"
    by (simp add: MemStorage_getLatestMetrics_def)
next
  fix m assume "MemStorage_getLatestMetrics st u = Some m"
  then obtain ms where ms: "MemStorage_getSocialMetrics st (Some u) None = m # ms"
    by (auto simp: MemStorage_getLatestMetrics_def split: list.splits)
  then show "m \<in> set (MemStorage_getSocialMetrics st (Some u) None)" by simp
  have "sorted_wrt (\<lambda>a b. sm_createdAt b \<le> sm_createdAt a) (m # ms)"
    using sorted_js_sort ms by (metis getSocialMetrics_sort)
  then show "\<forall>m'\<in>set (MemStorage_getSocialMetrics st (Some u) None).
             sm_createdAt m' \<le> sm_createdAt m"
    unfolding ms using head_is_newest by blast
  have "filter (\<lambda>x. sm_createdAt x = sm_createdAt m)
          (filter (\<lambda>x. wanted (Some u) (sm_url x) \<and> wanted None (sm_platform x))
             (Map_values (socialMetrics st)))
        = filter (\<lambda>x. sm_createdAt x = sm_createdAt m) (m # ms)"
    unfolding ms [symmetric] getSocialMetrics_sort by (rule stable_js_sort [symmetric])
  then show "\<exists>others. filter (\<lambda>x. sm_createdAt x = sm_createdAt m)
                       (filter (\<lambda>x. wanted (Some u) (sm_url x) \<and> wanted None (sm_platform x))
                          (Map_values (socialMetrics st))) = m # others"
    by simp
next
  assume h: "store_ok st \<and> T1 < T2 \<and> T2 < T3 \<and>
      ins_url i1 = u \<and> ins_url i2 = u \<and> ins_url i3 = u \<and>
      (\<forall>m\<in>set (MemStorage_getSocialMetrics st (Some u) None). sm_createdAt m < T3)"
  then have ok: "store_ok st" by blast
  have "fst (createSocialMetric T3 i3 (snd (createSocialMetric T2 i2
             (snd (createSocialMetric T1 i1 st)))))
        = \<lparr>sm_id = currentMetricId st + 2, sm_url = u, sm_platform = ins_platform i3,
                sm_createdAt = T3, sm_rest = ins_rest i3\<rparr>"
    using h by (simp add: createSocialMetric_def Let_def)
  moreover from h have "MemStorage_getLatestMetrics
          (snd (createSocialMetric T3 i3 (snd (createSocialMetric T2 i2
             (snd (createSocialMetric T1 i1 st)))))) u
        = Some (fst (createSocialMetric T3 i3 (snd (createSocialMetric T2 i2
             (snd (createSocialMetric T1 i1 st))))))"
    by (intro latest_after_three) blast+
  ultimately show "MemStorage_getLatestMetrics
          (snd (createSocialMetric T3 i3 (snd (createSocialMetric T2 i2
             (snd (createSocialMetric T1 i1 st)))))) u
        = Some \<lparr>sm_id = currentMetricId st + 2, sm_url = u, sm_platform = ins_platform i3,
                sm_createdAt = T3, sm_rest = ins_rest i3\<rparr>"
    by simp
qed

theorem latest_is_newest_witness:
  "MemStorage_getLatestMetrics
     (snd (createSocialMetric 300 sample_insert (snd (createSocialMetric 200 sample_insert
        (snd (createSocialMetric 100 sample_insert new_MemStorage))))))
     ''https://x.com/a/status/1''
   = Some \<lparr>sm_id = 3, sm_url = ''https://x.com/a/status/1'', sm_platform = ''twitter'',
            sm_createdAt = 300, sm_rest = ()\<rparr>"
proof -
  have ok: "store_ok (new_MemStorage :: unit MemStorage)"
    by (simp add: store_ok_def new_MemStorage_def)
  have older: "\<forall>m\<in>set (MemStorage_getSocialMetrics (new_MemStorage :: unit MemStorage)
                        (Some ''https://x.com/a/status/1'') None). sm_createdAt m < 300"
    by (simp add: set_getSocialMetrics new_MemStorage_def Map_values_def)
  have u: "ins_url sample_insert = ''https://x.com/a/status/1''"
    and p: "ins_platform sample_insert = ''twitter''" and r: "ins_rest sample_insert = ()"
    by (simp_all add: sample_insert_def)
  have c: "currentMetricId (new_MemStorage :: unit MemStorage) + 2 = 3"
    by (simp add: new_MemStorage_def)
  from latest_is_newest [of "new_MemStorage :: unit MemStorage" None None 0 "''https://x.com/a/status/1''"
      100 200 300 sample_insert sample_insert sample_insert] ok older u
  have "MemStorage_getLatestMetrics
     (snd (createSocialMetric 300 sample_insert (snd (createSocialMetric 200 sample_insert
        (snd (createSocialMetric 100 sample_insert new_MemStorage))))))
     ''https://x.com/a/status/1''
   = Some \<lparr>sm_id = currentMetricId (new_MemStorage :: unit MemStorage) + 2,
            sm_url = ''https://x.com/a/status/1'', sm_platform = ins_platform sample_insert,
            sm_createdAt = 300, sm_rest = ins_rest sample_insert\<rparr>"
    by simp
  then show ?thesis unfolding c p r .
qed

text \<open>
  The claim as stated fails where the two times part, and for the empty URL.  Here
  the rest of a row is the time its record carries.  Three records with times 1, 2
  and 3, inserted in that order at one clock reading: the latest is the first, with
  time 1.  Two records inserted newest first: the latest is the one inserted last,
  with time 1 and not 3.  And the latest row for the empty URL is a row of URL
  \<open>b\<close>: the empty string does not filter.
\<close>

theorem latest_is_newest_counterexample:
  "MemStorage_getLatestMetrics
     (snd (createSocialMetric 100 (record_at ''https://x.com/a/status/1'' 3)
       (snd (createSocialMetric 100 (record_at ''https://x.com/a/status/1'' 2)
         (snd (createSocialMetric 100 (record_at ''https://x.com/a/status/1'' 1)
            new_MemStorage))))))
     ''https://x.com/a/status/1''
   = Some \<lparr>sm_id = 1, sm_url = ''https://x.com/a/status/1'', sm_platform = ''twitter'',
            sm_createdAt = 100, sm_rest = 1\<rparr>
   \<and> MemStorage_getLatestMetrics
     (snd (createSocialMetric 200 (record_at ''https://x.com/a/status/1'' 1)
       (snd (createSocialMetric 100 (record_at ''https://x.com/a/status/1'' 3)
          new_MemStorage))))
     ''https://x.com/a/status/1''
   = Some \<lparr>sm_id = 2, sm_url = ''https://x.com/a/status/1'', sm_platform = ''twitter'',
            sm_createdAt = 200, sm_rest = 1\<rparr>
   \<and> MemStorage_getLatestMetrics
     (snd (createSocialMetric 100 (record_at ''b'' 1) new_MemStorage)) ''''
   = Some \<lparr>sm_id = 1, sm_url = ''b'', sm_platform = ''twitter'', sm_createdAt = 100,
            sm_rest = 1\<rparr>"
  by (simp add: MemStorage_getLatestMetrics_def MemStorage_getSocialMetrics_def
        createSocialMetric_def new_MemStorage_def record_at_def Map_values_def given_def
        js_sort_def newest_first_def Let_def)

end
